theory Spec2Isabelle
  imports Main
begin

section \<open>JavaScript strings and values\<close>

text \<open>
  Strings are lists of 8-bit characters. A value that may be \<open>undefined\<close> or \<open>null\<close>
  is an \<open>option\<close>. A string is falsy when it is absent or empty.
\<close>

definition truthy :: "string option \<Rightarrow> bool" where
  "truthy v = (case v of None \<Rightarrow> False | Some s \<Rightarrow> s \<noteq> [])"

text \<open>The operator \<open>a || b\<close> on strings that may be undefined.\<close>

definition jsOr :: "string option \<Rightarrow> string option \<Rightarrow> string option" where
  "jsOr a b = (if truthy a then a else b)"

text \<open>Reading index \<open>i\<close> of an array: \<open>undefined\<close> out of range.\<close>

fun nthOpt :: "'a list \<Rightarrow> nat \<Rightarrow> 'a option" where
  "nthOpt [] i = None"
| "nthOpt (x # xs) 0 = Some x"
| "nthOpt (x # xs) (Suc i) = nthOpt xs i"

text \<open>\<open>s.split(c)\<close> for a one-character separator: never the empty array.\<close>

fun splitOn :: "char \<Rightarrow> string \<Rightarrow> string list" where
  "splitOn c [] = [[]]"
| "splitOn c (x # xs) =
     (if x = c then [] # splitOn c xs
      else (case splitOn c xs of [] \<Rightarrow> [[x]] | h # t \<Rightarrow> (x # h) # t))"

text \<open>
  \<open>s.includes(sub)\<close> (\<open>includesStr\<close>), \<open>s.trim()\<close>, \<open>s.toLowerCase()\<close> and
  \<open>s.toUpperCase()\<close>. A character is a code point below 256 (Latin-1). White space is
  what \<open>trim\<close> strips in that range: tab to carriage return, space and the no-break
  space. The case mappings are those of JavaScript in that range, with \<open>U+00DF\<close> going to
  \<open>SS\<close>; the upper-case forms of \<open>U+00B5\<close> and \<open>U+00FF\<close> lie outside the range, and these
  two characters are left as they are.
\<close>

fun isPrefix :: "string \<Rightarrow> string \<Rightarrow> bool" where
  "isPrefix [] s = True"
| "isPrefix (p # ps) [] = False"
| "isPrefix (p # ps) (x # xs) = (p = x \<and> isPrefix ps xs)"

fun includesStr :: "string \<Rightarrow> string \<Rightarrow> bool" where
  "includesStr [] sub = isPrefix sub []"
| "includesStr (x # xs) sub = (isPrefix sub (x # xs) \<or> includesStr xs sub)"

definition inRange :: "char \<Rightarrow> char \<Rightarrow> char \<Rightarrow> bool" where
  "inRange lo hi c = ((of_char lo :: nat) \<le> of_char c \<and> (of_char c :: nat) \<le> of_char hi)"

definition isSpace :: "char \<Rightarrow> bool" where
  "isSpace c = (c = CHR '' '' \<or> c = CHR 0xA0 \<or> inRange (CHR 0x09) (CHR 0x0D) c)"

definition trim :: "string \<Rightarrow> string" where
  "trim s = rev (dropWhile isSpace (rev (dropWhile isSpace s)))"

definition isUpperLetter :: "char \<Rightarrow> bool" where
  "isUpperLetter c =
     (inRange (CHR ''A'') (CHR ''Z'') c \<or> (inRange (CHR 0xC0) (CHR 0xDE) c \<and> c \<noteq> CHR 0xD7))"

definition isLowerLetter :: "char \<Rightarrow> bool" where
  "isLowerLetter c =
     (inRange (CHR ''a'') (CHR ''z'') c \<or> (inRange (CHR 0xE0) (CHR 0xFE) c \<and> c \<noteq> CHR 0xF7))"

definition lowerChar :: "char \<Rightarrow> char" where
  "lowerChar c = (if isUpperLetter c then char_of (of_char c + (32 :: nat)) else c)"

definition upperChar :: "char \<Rightarrow> string" where
  "upperChar c =
     (if c = CHR 0xDF then ''SS''
      else if isLowerLetter c then [char_of (of_char c - (32 :: nat))]
      else [c])"

definition toLowerCase :: "string \<Rightarrow> string" where
  "toLowerCase s = map lowerChar s"

definition toUpperCase :: "string \<Rightarrow> string" where
  "toUpperCase s = concat (map upperChar s)"

section \<open>Regular expressions of the shape used by the source\<close>

text \<open>
  A pattern is a sequence of atoms, each a character class with a quantifier. Matching
  is by backtracking with greedy quantifiers, as in JavaScript: \<open>rxAll\<close> lists every way
  to match the pattern at the start of a string, in the order in which a backtracking
  matcher tries them, each as the list of pieces consumed by the atoms. The first entry is
  the match that \<open>exec\<close> reports. A pattern without \<open>^\<close> is tried at every position from
  the left (\<open>searchFrom\<close>).
\<close>

datatype quant = Once | Plus | Star

type_synonym atom = "(char \<Rightarrow> bool) \<times> quant"

fun splits :: "(char \<Rightarrow> bool) \<Rightarrow> string \<Rightarrow> (string \<times> string) list" where
  "splits p [] = [([], [])]"
| "splits p (x # xs) =
     (if p x then map (\<lambda>(a, r). (x # a, r)) (splits p xs) else []) @ [([], x # xs)]"

fun choices :: "atom \<Rightarrow> string \<Rightarrow> (string \<times> string) list" where
  "choices (p, Once) s = (case s of [] \<Rightarrow> [] | x # xs \<Rightarrow> if p x then [([x], xs)] else [])"
| "choices (p, Plus) s = filter (\<lambda>(a, r). a \<noteq> []) (splits p s)"
| "choices (p, Star) s = splits p s"

fun rxAll :: "atom list \<Rightarrow> string \<Rightarrow> string list list" where
  "rxAll [] s = [[]]"
| "rxAll (a # as) s = concat (map (\<lambda>(m, r). map ((#) m) (rxAll as r)) (choices a s))"

fun searchFrom :: "atom list \<Rightarrow> string \<Rightarrow> string list option" where
  "searchFrom r [] = (case rxAll r [] of [] \<Rightarrow> None | m # _ \<Rightarrow> Some m)"
| "searchFrom r (x # xs) =
     (case rxAll r (x # xs) of [] \<Rightarrow> searchFrom r xs | m # _ \<Rightarrow> Some m)"

text \<open>
  \<open>str.match(re)\<close> for a pattern without the global flag and with one capture group that
  spans the atoms \<open>from, \<dots>, from + len - 1\<close>: \<open>null\<close>, or the array of the whole match
  and the group.
\<close>

definition regexMatch :: "atom list \<Rightarrow> nat \<Rightarrow> nat \<Rightarrow> string \<Rightarrow> string list option" where
  "regexMatch r from len s =
     map_option (\<lambda>segs. [concat segs, concat (take len (drop from segs))]) (searchFrom r s)"

definition lit :: "char \<Rightarrow> atom" where
  "lit c = ((\<lambda>x. x = c), Once)"

text \<open>\<open>[a-zA-Z0-9]\<close>, \<open>[a-zA-Z0-9-.+]\<close> and \<open>.\<close> (any character but a line terminator).\<close>

definition alnum :: "char \<Rightarrow> bool" where
  "alnum c = (inRange (CHR ''a'') (CHR ''z'') c \<or> inRange (CHR ''A'') (CHR ''Z'') c
              \<or> inRange (CHR ''0'') (CHR ''9'') c)"

definition subtypeChar :: "char \<Rightarrow> bool" where
  "subtypeChar c = (alnum c \<or> c = CHR ''-'' \<or> c = CHR ''.'' \<or> c = CHR ''+'')"

definition dot :: "char \<Rightarrow> bool" where
  "dot c = (c \<noteq> CHR 0x0A \<and> c \<noteq> CHR 0x0D)"

section \<open>utils/imageUtils.ts\<close>

text \<open>\<open>cleanBase64 = base64Str.split(',')[1] || base64Str\<close>\<close>

definition cleanBase64 :: "string \<Rightarrow> string" where
  "cleanBase64 base64Str =
     (case jsOr (nthOpt (splitOn (CHR '','') base64Str) 1) (Some base64Str) of
        Some r \<Rightarrow> r | None \<Rightarrow> base64Str)"

text \<open>
  The pattern \<open>/data:([a-zA-Z0-9]+\/[a-zA-Z0-9-.+]+).*,.*/\<close>: five literal atoms, then the
  three atoms of the capture group, then \<open>.*\<close>, the comma and \<open>.*\<close>.
\<close>

definition tailRegex :: "atom list" where
  "tailRegex = [(dot, Star), lit (CHR '',''), (dot, Star)]"

definition subRegex :: "atom list" where
  "subRegex = (subtypeChar, Plus) # tailRegex"

definition typeRegex :: "atom list" where
  "typeRegex = (alnum, Plus) # lit (CHR ''/'') # subRegex"

definition mimeRegex :: "atom list" where
  "mimeRegex = map lit ''data:'' @ typeRegex"

definition getMimeType :: "string \<Rightarrow> string" where
  "getMimeType base64Str =
     (case regexMatch mimeRegex 5 3 base64Str of
        None \<Rightarrow> ''image/png''
      | Some m \<Rightarrow>
          (if length m > 1 then (case nthOpt m 1 of Some g \<Rightarrow> g | None \<Rightarrow> ''image/png'')
           else ''image/png''))"

text \<open>
  The header that the specification describes, read directly: the text \<open>data:\<close>, a
  non-empty type, a slash, a non-empty subtype, and a comma later on the same line.
  \<open>wellFormedPrefix\<close> parses it at the start of a string, \<open>findHeader\<close> at the leftmost
  position that carries one.
\<close>

definition wellFormedPrefix :: "string \<Rightarrow> string option" where
  "wellFormedPrefix t =
     (if take 5 t = ''data:'' then
        (let r = drop 5 t; ty = takeWhile alnum r in
         (case dropWhile alnum r of
            [] \<Rightarrow> None
          | c # r2 \<Rightarrow>
              (let sub = takeWhile subtypeChar r2; r3 = dropWhile subtypeChar r2 in
               if ty \<noteq> [] \<and> c = CHR ''/'' \<and> sub \<noteq> [] \<and> CHR '','' \<in> set (takeWhile dot r3)
               then Some (ty @ ''/'' @ sub) else None)))
      else None)"

fun findHeader :: "string \<Rightarrow> string option" where
  "findHeader [] = wellFormedPrefix []"
| "findHeader (x # xs) =
     (case wellFormedPrefix (x # xs) of Some m \<Rightarrow> Some m | None \<Rightarrow> findHeader xs)"

text \<open>A piece of a match conforms to its atom: its characters are in the class, and
  it has the length the quantifier allows.\<close>

definition conforms :: "atom \<Rightarrow> string \<Rightarrow> bool" where
  "conforms a seg =
     (list_all (fst a) seg \<and> (snd a = Once \<longrightarrow> length seg = 1) \<and> (snd a = Plus \<longrightarrow> seg \<noteq> []))"

section \<open>types.ts\<close>

text \<open>
  \<open>ItemType = 'clothing' | 'accessory' | null\<close> and \<open>ModelMode = 'pro' | 'flash'\<close>. The
  records \<open>ImageFile\<close> and \<open>AppState\<close> of this file are declared with the component,
  further down.
\<close>

datatype ItemType = Clothing | Accessory | NoItem

datatype ModelMode = Pro | Flash

section \<open>The hosted API, as the service sees it\<close>

text \<open>
  A thrown value is an \<open>Error\<close> with its message, or any other value. The text of a
  prompt template is not modelled: a prompt is the name of its template with the values
  interpolated into it (the item description, the instruction).
\<close>

datatype thrown = Error string | NonError string

datatype prompt =
    DescribePrompt
  | ValidatePrompt
  | AnalyzePrompt
  | StrictClothing
  | StrictAccessory
  | RelaxedClothing string
  | RelaxedAccessory string
  | RefinePrompt string

datatype part = InlineData string string | Text prompt

record imageConfig =
  aspectRatio :: string
  imageSize :: "string option"

record genConfig =
  imageConfig :: imageConfig
  safety :: "(string \<times> string) list"

record request =
  model :: string
  contents :: "part list"
  config :: "genConfig option"

text \<open>
  A response, as far as the service reads it: \<open>response.text\<close> (\<open>respText\<close>),
  \<open>response.candidates\<close> with each candidate's \<open>finishReason\<close> and \<open>content?.parts\<close>
  (\<open>contentParts\<close>), each part's \<open>inlineData\<close> with \<open>mimeType\<close> and \<open>data\<close>
  (\<open>imgData\<close>) and \<open>text\<close> (\<open>partText\<close>), and \<open>response.promptFeedback?.blockReason\<close>.
  A field that is \<open>undefined\<close> is \<open>None\<close>.
\<close>

record inline_data =
  mimeType :: "string option"
  imgData :: "string option"

record respPart =
  inlineData :: "inline_data option"
  partText :: "string option"

record candidate =
  finishReason :: "string option"
  contentParts :: "respPart list option"

record response =
  respText :: "string option"
  candidates :: "candidate list option"
  blockReason :: "string option"

text \<open>
  The world outside the service: \<open>process.env.API_KEY\<close>, and the hosted model, which
  answers a request made with a key by a response or by a rejection. The client that
  \<open>getAiClient\<close> makes is the key it was made with.
\<close>

record environment =
  processEnvApiKey :: "string option"
  generateContent :: "string \<Rightarrow> request \<Rightarrow> thrown + response"

text \<open>
  Everything a call does besides returning is appended to a trace, in order: the requests
  sent, the status callbacks, the console output, and (in the component) the state updates.
\<close>

datatype event =
    ApiCall string request
  | Status string
  | ConsoleLog string
  | ConsoleWarn string "thrown option"
  | ConsoleError string thrown
  | SetHistory "string list"
  | SetGeneratedImage "string option"
  | ClearImages

section \<open>services/geminiService.ts\<close>

text \<open>\<open>onStatusUpdate\<close> records whether the optional callback was passed.\<close>

record ServiceOptions =
  modelMode :: ModelMode
  customApiKey :: "string option"
  onStatusUpdate :: bool

definition noApiKey :: thrown where
  "noApiKey = Error ''No API key available. Please enter a valid API key in the interface.''"

definition getAiClient :: "ServiceOptions \<Rightarrow> environment \<Rightarrow> thrown + string" where
  "getAiClient options env =
     (case jsOr (customApiKey options) (processEnvApiKey env) of
        None \<Rightarrow> Inl noApiKey
      | Some apiKey \<Rightarrow> if apiKey = [] then Inl noApiKey else Inr apiKey)"

definition statusUpdate :: "ServiceOptions \<Rightarrow> string \<Rightarrow> event list \<Rightarrow> event list" where
  "statusUpdate options s tr = (if onStatusUpdate options then tr @ [Status s] else tr)"

definition callModel ::
  "environment \<Rightarrow> string \<Rightarrow> request \<Rightarrow> event list \<Rightarrow> (thrown + response) \<times> event list" where
  "callModel env ai req tr = (generateContent env ai req, tr @ [ApiCall ai req])"

definition describeRequest :: "string \<Rightarrow> string \<Rightarrow> request" where
  "describeRequest itemBase64 itemMime =
     \<lparr>model = ''gemini-2.5-flash'',
      contents = [InlineData itemMime (cleanBase64 itemBase64), Text DescribePrompt],
      config = None\<rparr>"

definition getItemDescription ::
  "string \<Rightarrow> string \<Rightarrow> ServiceOptions \<Rightarrow> environment \<Rightarrow> event list \<Rightarrow> string \<times> event list" where
  "getItemDescription itemBase64 itemMime options env tr =
     (case getAiClient options env of
        Inl e \<Rightarrow>
          (''stylish clothing item'',
           tr @ [ConsoleWarn ''Failed to generate description, using fallback.'' (Some e)])
      | Inr ai \<Rightarrow>
          (case callModel env ai (describeRequest itemBase64 itemMime) tr of
             (Inl e, tr1) \<Rightarrow>
               (''stylish clothing item'',
                tr1 @ [ConsoleWarn ''Failed to generate description, using fallback.'' (Some e)])
           | (Inr response, tr1) \<Rightarrow>
               (case jsOr (map_option trim (respText response)) (Some ''fashion item'') of
                  Some d \<Rightarrow> (d, tr1)
                | None \<Rightarrow> (''fashion item'', tr1))))"

definition validateRequest :: "string \<Rightarrow> request" where
  "validateRequest generatedImageBase64 =
     \<lparr>model = ''gemini-2.5-flash'',
      contents = [InlineData ''image/png'' (cleanBase64 generatedImageBase64), Text ValidatePrompt],
      config = None\<rparr>"

definition validateResult ::
  "string \<Rightarrow> ServiceOptions \<Rightarrow> environment \<Rightarrow> event list \<Rightarrow> bool \<times> event list" where
  "validateResult generatedImageBase64 options env tr =
     (case getAiClient options env of
        Inl e \<Rightarrow> (True, tr @ [ConsoleWarn ''Validation check failed, skipping.'' (Some e)])
      | Inr ai \<Rightarrow>
          (case callModel env ai (validateRequest generatedImageBase64) tr of
             (Inl e, tr1) \<Rightarrow>
               (True, tr1 @ [ConsoleWarn ''Validation check failed, skipping.'' (Some e)])
           | (Inr response, tr1) \<Rightarrow>
               (case map_option (\<lambda>t. toUpperCase (trim t)) (respText response) of
                  None \<Rightarrow> (True, tr1)
                | Some t \<Rightarrow> (includesStr t ''YES'', tr1))))"

definition parseAnalysisResponse :: "string option \<Rightarrow> ItemType" where
  "parseAnalysisResponse t =
     (let lowerText = map_option (\<lambda>s. toLowerCase (trim s)) t in
      if (case lowerText of None \<Rightarrow> False | Some l \<Rightarrow> includesStr l ''clothing'') then Clothing
      else if (case lowerText of None \<Rightarrow> False | Some l \<Rightarrow> includesStr l ''accessory'')
      then Accessory
      else Clothing)"

definition analyzeRequest :: "string \<Rightarrow> string \<Rightarrow> string \<Rightarrow> request" where
  "analyzeRequest modelToUse itemBase64 mime =
     \<lparr>model = modelToUse,
      contents = [InlineData mime (cleanBase64 itemBase64), Text AnalyzePrompt],
      config = None\<rparr>"

definition analyzeItemImage ::
  "string \<Rightarrow> string \<Rightarrow> ServiceOptions \<Rightarrow> environment \<Rightarrow> event list
     \<Rightarrow> (thrown + ItemType) \<times> event list" where
  "analyzeItemImage itemBase64 mime options env tr =
     (case getAiClient options env of
        Inl e \<Rightarrow> (Inl e, tr)
      | Inr ai \<Rightarrow>
          (let modelToUse =
                 (if modelMode options = Pro then ''gemini-3-pro-preview'' else ''gemini-2.5-flash'')
           in case callModel env ai (analyzeRequest modelToUse itemBase64 mime) tr of
                (Inr response, tr1) \<Rightarrow> (Inr (parseAnalysisResponse (respText response)), tr1)
              | (Inl error, tr1) \<Rightarrow>
                  (if modelMode options = Pro then
                     (let tr2 = tr1 @ [ConsoleWarn ''Pro analysis failed, falling back to Flash'' None]
                      in case callModel env ai (analyzeRequest ''gemini-2.5-flash'' itemBase64 mime) tr2 of
                           (Inr response, tr3) \<Rightarrow>
                             (Inr (parseAnalysisResponse (respText response)), tr3)
                         | (Inl e, tr3) \<Rightarrow> (Inr Clothing, tr3))
                   else (Inr Clothing, tr1))))"

definition safetySettings :: "(string \<times> string) list" where
  "safetySettings =
     [(''HARM_CATEGORY_HARASSMENT'', ''BLOCK_ONLY_HIGH''),
      (''HARM_CATEGORY_HATE_SPEECH'', ''BLOCK_ONLY_HIGH''),
      (''HARM_CATEGORY_SEXUALLY_EXPLICIT'', ''BLOCK_ONLY_HIGH''),
      (''HARM_CATEGORY_DANGEROUS_CONTENT'', ''BLOCK_ONLY_HIGH'')]"

text \<open>
  \<open>extractImageFromResponse\<close>; the argument is \<open>None\<close> for a response that is \<open>null\<close> or
  \<open>undefined\<close>. An absent \<open>data\<close> is interpolated as the text \<open>undefined\<close>.
\<close>

definition noCandidates :: "response option \<Rightarrow> thrown" where
  "noCandidates resp =
     (case resp of
        None \<Rightarrow> Error ''No candidates returned from the model.''
      | Some r \<Rightarrow>
          (case blockReason r of
             None \<Rightarrow> Error ''No candidates returned from the model.''
           | Some b \<Rightarrow>
               if b = [] then Error ''No candidates returned from the model.''
               else Error (''Request blocked by safety filters: '' @ b)))"

definition dataUrl :: "inline_data \<Rightarrow> string" where
  "dataUrl d =
     ''data:''
     @ (case jsOr (mimeType d) (Some ''image/png'') of Some m \<Rightarrow> m | None \<Rightarrow> ''image/png'')
     @ '';base64,''
     @ (case imgData d of Some b \<Rightarrow> b | None \<Rightarrow> ''undefined'')"

definition extractFromParts :: "respPart list \<Rightarrow> thrown + string" where
  "extractFromParts parts =
     (if parts = [] then Inl (Error ''Model returned a candidate but no content parts.'')
      else
        (case List.find (\<lambda>p. inlineData p \<noteq> None) parts of
           Some p \<Rightarrow>
             (case inlineData p of
                Some d \<Rightarrow> Inr (dataUrl d)
              | None \<Rightarrow> Inl (Error ''No valid image data found in the response candidates.''))
         | None \<Rightarrow>
             (case List.find (\<lambda>p. truthy (partText p)) parts of
                Some textPart \<Rightarrow>
                  (case partText textPart of
                     Some t \<Rightarrow> Inl (Error (''Model Refusal: '' @ take 150 t @ ''...''))
                   | None \<Rightarrow> Inl (Error ''No valid image data found in the response candidates.''))
              | None \<Rightarrow> Inl (Error ''No valid image data found in the response candidates.''))))"

definition extractImageFromResponse :: "response option \<Rightarrow> thrown + string" where
  "extractImageFromResponse resp =
     (case resp of
        None \<Rightarrow> Inl (noCandidates resp)
      | Some r \<Rightarrow>
          (case candidates r of
             None \<Rightarrow> Inl (noCandidates resp)
           | Some [] \<Rightarrow> Inl (noCandidates resp)
           | Some (candidate # _) \<Rightarrow>
               (case finishReason candidate of
                  None \<Rightarrow>
                    extractFromParts (case contentParts candidate of None \<Rightarrow> [] | Some ps \<Rightarrow> ps)
                | Some reason \<Rightarrow>
                    if reason \<noteq> [] \<and> reason \<noteq> ''STOP'' then
                      Inl (Error (''Generation stopped. Reason: '' @ reason
                        @ '' (The model likely refused the request due to safety/policy filters)''))
                    else
                      extractFromParts (case contentParts candidate of None \<Rightarrow> [] | Some ps \<Rightarrow> ps))))"

text \<open>
  The helper \<open>executeGeneration\<close> of \<open>generateTryOn\<close>, with the variables it closes over
  (the client and the four image arguments) as parameters.
\<close>

definition generationRequest ::
  "string \<Rightarrow> string \<Rightarrow> string \<Rightarrow> string \<Rightarrow> string \<Rightarrow> prompt \<Rightarrow> imageConfig \<Rightarrow> request" where
  "generationRequest personBase64 personMime itemBase64 itemMime m promptText extraConfig =
     \<lparr>model = m,
      contents = [InlineData personMime (cleanBase64 personBase64),
                  InlineData itemMime (cleanBase64 itemBase64),
                  Text promptText],
      config = Some \<lparr>imageConfig = extraConfig, safety = safetySettings\<rparr>\<rparr>"

definition executeGeneration ::
  "environment \<Rightarrow> string \<Rightarrow> request \<Rightarrow> event list \<Rightarrow> (thrown + string) \<times> event list" where
  "executeGeneration env ai req tr =
     (case callModel env ai req
             (tr @ [ConsoleLog (''Attempting generation with model: '' @ model req)]) of
        (Inl e, tr1) \<Rightarrow> (Inl e, tr1)
      | (Inr response, tr1) \<Rightarrow> (extractImageFromResponse (Some response), tr1))"

text \<open>
  One \<open>try { generatedImage = await executeGeneration(\<dots>) } catch (err) { console.warn(\<dots>);
  lastError = err }\<close> block, on the variables \<open>generatedImage\<close> and \<open>lastError\<close>.
\<close>

type_synonym genVars = "string option \<times> thrown option"

definition attempt ::
  "string \<Rightarrow> environment \<Rightarrow> string \<Rightarrow> request \<Rightarrow> genVars \<times> event list \<Rightarrow> genVars \<times> event list" where
  "attempt warning env ai req v =
     (case v of
        ((generatedImage, lastError), tr) \<Rightarrow>
          (case executeGeneration env ai req tr of
             (Inr img, tr1) \<Rightarrow> ((Some img, lastError), tr1)
           | (Inl err, tr1) \<Rightarrow>
               ((generatedImage, Some err), tr1 @ [ConsoleWarn warning (Some err)])))"

definition primaryModel :: "ServiceOptions \<Rightarrow> string" where
  "primaryModel options =
     (if modelMode options = Pro then ''gemini-3-pro-image-preview'' else ''gemini-2.5-flash-image'')"

definition fallbackModel :: string where
  "fallbackModel = ''gemini-2.5-flash-image''"

definition primaryConfig :: "ServiceOptions \<Rightarrow> imageConfig" where
  "primaryConfig options =
     (if modelMode options = Pro then \<lparr>aspectRatio = ''3:4'', imageSize = Some ''1K''\<rparr>
      else \<lparr>aspectRatio = ''3:4'', imageSize = None\<rparr>)"

definition fallbackConfig :: imageConfig where
  "fallbackConfig = \<lparr>aspectRatio = ''3:4'', imageSize = None\<rparr>"

definition strictPrompt :: "ItemType \<Rightarrow> prompt" where
  "strictPrompt type = (if type = Clothing then StrictClothing else StrictAccessory)"

definition relaxedPrompt :: "ItemType \<Rightarrow> string \<Rightarrow> prompt" where
  "relaxedPrompt type itemDescription =
     (if type = Clothing then RelaxedClothing itemDescription
      else RelaxedAccessory itemDescription)"

text \<open>The three guarded attempts of the retry section, in source order.\<close>

definition retryLoop ::
  "string \<Rightarrow> string \<Rightarrow> string \<Rightarrow> string \<Rightarrow> ItemType \<Rightarrow> ServiceOptions \<Rightarrow> environment
     \<Rightarrow> string \<Rightarrow> string \<Rightarrow> event list \<Rightarrow> genVars \<times> event list" where
  "retryLoop personBase64 personMime itemBase64 itemMime type options env ai itemDescription tr =
     (let gen = generationRequest personBase64 personMime itemBase64 itemMime;
          v1 = attempt ''Attempt 1 (Strict Prompt) failed:'' env ai
                 (gen (primaryModel options) (strictPrompt type) (primaryConfig options))
                 ((None, None), tr);
          v2 = (if \<not> truthy (fst (fst v1)) then
                  attempt ''Attempt 2 (Relaxed Prompt) failed:'' env ai
                    (gen (primaryModel options) (relaxedPrompt type itemDescription)
                       (primaryConfig options))
                    (fst v1, statusUpdate options ''Refining result (Attempt 2)...'' (snd v1))
                else v1);
          v3 = (if \<not> truthy (fst (fst v2)) \<and> modelMode options = Pro then
                  attempt ''Attempt 3 (Fallback Model) failed:'' env ai
                    (gen fallbackModel (strictPrompt type) fallbackConfig)
                    (fst v2, statusUpdate options ''Switching to standard model...'' (snd v2))
                else v2)
      in v3)"

definition generateTryOn ::
  "string \<Rightarrow> string \<Rightarrow> string \<Rightarrow> string \<Rightarrow> ItemType \<Rightarrow> ServiceOptions \<Rightarrow> environment
     \<Rightarrow> event list \<Rightarrow> (thrown + string) \<times> event list" where
  "generateTryOn personBase64 personMime itemBase64 itemMime type options env tr =
     (case getAiClient options env of
        Inl e \<Rightarrow> (Inl e, tr)
      | Inr ai \<Rightarrow>
          (case getItemDescription itemBase64 itemMime options env
                  (statusUpdate options ''Analyzing item details...'' tr) of
             (itemDescription, tr1) \<Rightarrow>
               (case retryLoop personBase64 personMime itemBase64 itemMime type options env ai
                       itemDescription
                       (statusUpdate options ''Synthesizing try-on...''
                          (tr1 @ [ConsoleLog (''Generated Item Description: '' @ itemDescription)])) of
                  ((generatedImage, lastError), tr2) \<Rightarrow>
                    (case generatedImage of
                       None \<Rightarrow>
                         (Inl (Error (''Generation failed: ''
                            @ (case lastError of Some (Error m) \<Rightarrow> m | _ \<Rightarrow> ''Unknown error''))), tr2)
                     | Some img \<Rightarrow>
                         if img = [] then
                           (Inl (Error (''Generation failed: ''
                              @ (case lastError of Some (Error m) \<Rightarrow> m | _ \<Rightarrow> ''Unknown error''))), tr2)
                         else
                           (case validateResult img options env
                                   (statusUpdate options ''Reviewing result quality...'' tr2) of
                              (isValid, tr3) \<Rightarrow>
                                (Inr img,
                                 if \<not> isValid then
                                   tr3 @ [ConsoleWarn
                                     ''Internal review failed: Image might not show a person.'' None]
                                 else tr3))))))"

definition refineRequest :: "string \<Rightarrow> string \<Rightarrow> string \<Rightarrow> imageConfig \<Rightarrow> request" where
  "refineRequest m currentImageBase64 instruction ic =
     \<lparr>model = m,
      contents = [InlineData (getMimeType currentImageBase64) (cleanBase64 currentImageBase64),
                  Text (RefinePrompt instruction)],
      config = Some \<lparr>imageConfig = ic, safety = safetySettings\<rparr>\<rparr>"

definition refineImage ::
  "string \<Rightarrow> string \<Rightarrow> ServiceOptions \<Rightarrow> environment \<Rightarrow> event list
     \<Rightarrow> (thrown + string) \<times> event list" where
  "refineImage currentImageBase64 instruction options env tr =
     (case getAiClient options env of
        Inl e \<Rightarrow> (Inl e, tr)
      | Inr ai \<Rightarrow>
          (case callModel env ai
                  (refineRequest (primaryModel options) currentImageBase64 instruction
                     (primaryConfig options))
                  (statusUpdate options ''Applying changes...'' tr) of
             (r, tr1) \<Rightarrow>
               (case (case r of Inl e \<Rightarrow> Inl e
                      | Inr response \<Rightarrow> extractImageFromResponse (Some response)) of
                  Inr img \<Rightarrow> (Inr img, tr1)
                | Inl err \<Rightarrow>
                    (let tr2 = tr1 @ [ConsoleError ''Refinement failed'' err] in
                     if modelMode options = Pro then
                       (case callModel env ai
                               (refineRequest ''gemini-2.5-flash-image'' currentImageBase64
                                  instruction \<lparr>aspectRatio = ''3:4'', imageSize = None\<rparr>)
                               (statusUpdate options ''Retrying with Flash...'' tr2) of
                          (Inl e, tr3) \<Rightarrow> (Inl e, tr3)
                        | (Inr fallbackResponse, tr3) \<Rightarrow>
                            (extractImageFromResponse (Some fallbackResponse), tr3))
                     else (Inl err, tr2)))))"

section \<open>services/geminiService.ts with what it can reach threaded through\<close>

text \<open>
  The functions above take what they read as arguments and give nothing back but their
  result and the trace, so nothing they could keep from one call to the next shows in
  them. Here the module is translated once more with all that its code can reach made a
  value that every function takes and gives back: the array that the module-level
  constant \<open>safetySettings\<close> is bound to (the binding is constant, the array is an object
  that could be written), \<open>process.env.API_KEY\<close>, and the trace. The hosted model is
  outside; it is a function of the key and the request at the time of a call, and two
  calls may meet two different ones. A function named \<open>fW\<close> is the source function \<open>f\<close>.
\<close>

record world =
  safetyArray :: "(string \<times> string) list"
  envApiKey :: "string option"
  events :: "event list"

type_synonym hosted = "string \<Rightarrow> request \<Rightarrow> thrown + response"

text \<open>The module has been loaded: \<open>const safetySettings = [\<dots>]\<close> has run.\<close>

definition moduleLoaded :: "world \<Rightarrow> bool" where
  "moduleLoaded w = (safetyArray w = safetySettings)"

definition emit :: "event \<Rightarrow> world \<Rightarrow> world" where
  "emit e w = w\<lparr>events := events w @ [e]\<rparr>"



definition callModelW ::
  "hosted \<Rightarrow> string \<Rightarrow> request \<Rightarrow> world \<Rightarrow> (thrown + response) \<times> world" where
  "callModelW api ai req w = (api ai req, emit (ApiCall ai req) w)"









text \<open>What the functions of the first translation are given, read off a world.\<close>

definition envOf :: "hosted \<Rightarrow> world \<Rightarrow> environment" where
  "envOf api w = \<lparr>processEnvApiKey = envApiKey w, generateContent = api\<rparr>"

section \<open>App.tsx and components/ResultModal.tsx\<close>

text \<open>
  \<open>ImageFile\<close> and \<open>AppState\<close> of \<open>types.ts\<close>. Of \<open>ImageFile\<close> the \<open>File\<close> object is left
  out (\<open>imageMime\<close> is its \<open>mimeType\<close>). Of \<open>AppState\<close> the fields are kept that the
  handlers modelled here read or write (\<open>appModelMode\<close> is \<open>modelMode\<close>).
\<close>

record ImageFile =
  previewUrl :: string
  base64 :: string
  imageMime :: string

record AppState =
  personImage :: "ImageFile option"
  itemImage :: "ImageFile option"
  generatedImage :: "string option"
  appModelMode :: ModelMode
  flashApiKey :: string

text \<open>
  The component holds \<open>state\<close>, \<open>history\<close>, \<open>localProKey\<close> and \<open>isLocalEnv\<close>. A state
  update is applied when it is issued and recorded in the trace: \<open>SetHistory\<close> with the
  new history, \<open>SetGeneratedImage\<close> for an update of \<open>state\<close> that sets
  \<open>generatedImage\<close> alone, \<open>ClearImages\<close> for the update of \<open>onReset\<close>.
\<close>

record App =
  state :: AppState
  history :: "string list"
  localProKey :: string
  isLocalEnv :: bool

definition getActiveKey :: "App \<Rightarrow> string option" where
  "getActiveKey app =
     (if appModelMode (state app) = Flash then Some (flashApiKey (state app))
      else if isLocalEnv app then Some (localProKey app)
      else None)"

definition setHistory :: "(string list \<Rightarrow> string list) \<Rightarrow> App \<times> event list \<Rightarrow> App \<times> event list" where
  "setHistory f v =
     (case v of (app, tr) \<Rightarrow> (app\<lparr>history := f (history app)\<rparr>, tr @ [SetHistory (f (history app))]))"

definition setGeneratedImage :: "string option \<Rightarrow> App \<times> event list \<Rightarrow> App \<times> event list" where
  "setGeneratedImage img v =
     (case v of
        (app, tr) \<Rightarrow>
          (app\<lparr>state := (state app)\<lparr>generatedImage := img\<rparr>\<rparr>, tr @ [SetGeneratedImage img]))"

definition handleUndo :: "App \<times> event list \<Rightarrow> App \<times> event list" where
  "handleUndo v =
     (case v of
        (app, tr) \<Rightarrow>
          if length (history app) = 0 then (app, tr)
          else setHistory butlast (setGeneratedImage (Some (last (history app))) (app, tr)))"

text \<open>The \<open>onClose\<close> and \<open>onReset\<close> callbacks that \<open>App\<close> passes to the result window.\<close>

definition onClose :: "App \<times> event list \<Rightarrow> App \<times> event list" where
  "onClose v = setGeneratedImage None v"

definition onReset :: "App \<times> event list \<Rightarrow> App \<times> event list" where
  "onReset v =
     (case v of
        (app, tr) \<Rightarrow>
          (app\<lparr>state := (state app)\<lparr>generatedImage := None, personImage := None,
                                     itemImage := None\<rparr>\<rparr>,
           tr @ [ClearImages]))"

text \<open>
  A click on one of the three buttons of the result window that are wired to the
  component. The window is rendered only while \<open>state.generatedImage\<close> is truthy, and its
  Undo button is disabled while the history is empty. While a refinement is pending the
  window disables the prompt field and the send button (\<open>isRefining\<close>), and none of these
  three.
\<close>

datatype click = Undo | Close | Reset

definition clickOn :: "click \<Rightarrow> App \<times> event list \<Rightarrow> App \<times> event list" where
  "clickOn c v =
     (case v of
        (app, tr) \<Rightarrow>
          if \<not> truthy (generatedImage (state app)) then (app, tr)
          else
            (case c of
               Undo \<Rightarrow> if length (history app) > 0 then handleUndo (app, tr) else (app, tr)
             | Close \<Rightarrow> onClose (app, tr)
             | Reset \<Rightarrow> onReset (app, tr)))"

text \<open>
  \<open>handleRefine\<close>. The handler is suspended at \<open>await refineImage(\<dots>)\<close>; \<open>during\<close> lists the
  clicks that arrive before the promise settles, and they are recorded after the events
  of \<open>refineImage\<close>. What follows the \<open>await\<close> runs on the state that they leave.
\<close>

definition handleRefine ::
  "string \<Rightarrow> environment \<Rightarrow> click list \<Rightarrow> App \<times> event list
     \<Rightarrow> (thrown + unit) \<times> App \<times> event list" where
  "handleRefine instruction env during v =
     (case v of
        (app, tr) \<Rightarrow>
          (case generatedImage (state app) of
             None \<Rightarrow> (Inr (), app, tr)
           | Some current \<Rightarrow>
               if current = [] then (Inr (), app, tr)
               else
                 (case setHistory (\<lambda>prev. prev @ [current]) (app, tr) of
                    (app1, tr1) \<Rightarrow>
                      (case refineImage current instruction
                              \<lparr>modelMode = appModelMode (state app),
                               customApiKey = getActiveKey app,
                               onStatusUpdate = False\<rparr> env tr1 of
                         (r, tr2) \<Rightarrow>
                           (case r of
                              Inr refined \<Rightarrow>
                                (Inr (),
                                 setGeneratedImage (Some refined)
                                   (fold clickOn during (app1, tr2)))
                            | Inl e \<Rightarrow>
                                (Inl e, setHistory butlast (fold clickOn during (app1, tr2))))))))"

section \<open>Observations on a run\<close>

text \<open>
  The requests of a trace, in the order sent; the console warnings; the outcome of one
  generation request (the rejection, or what \<open>extractImageFromResponse\<close> makes of the
  response); and the message that \<open>generateTryOn\<close> reports for its variable \<open>lastError\<close>.
\<close>

fun apiCalls :: "event list \<Rightarrow> request list" where
  "apiCalls [] = []"
| "apiCalls (ApiCall k r # es) = r # apiCalls es"
| "apiCalls (e # es) = apiCalls es"

fun isWarn :: "event \<Rightarrow> bool" where
  "isWarn (ConsoleWarn m e) = True"
| "isWarn e = False"

definition genOutcome :: "environment \<Rightarrow> string \<Rightarrow> request \<Rightarrow> thrown + string" where
  "genOutcome env ai req =
     (case generateContent env ai req of
        Inl e \<Rightarrow> Inl e
      | Inr response \<Rightarrow> extractImageFromResponse (Some response))"

definition errorMessage :: "thrown option \<Rightarrow> string" where
  "errorMessage lastError = (case lastError of Some (Error m) \<Rightarrow> m | _ \<Rightarrow> ''Unknown error'')"

section \<open>Calls of the service, one after another\<close>


datatype returned = Image string | Kind ItemType



text \<open>
  The responses that the hosted model gave to the requests of a trace, in order; the
  requests that a call sent and the responses it received, read off the worlds before
  and after it.
\<close>

fun responses :: "hosted \<Rightarrow> event list \<Rightarrow> (thrown + response) list" where
  "responses api [] = []"
| "responses api (ApiCall k r # es) = api k r # responses api es"
| "responses api (e # es) = responses api es"



section \<open>The behaviour in the words of the specification\<close>

text \<open>
  These definitions are not taken from the code. They say what the specification says,
  and the theorems below compare the code with them.

  The image of a response: the first candidate, unless it stopped for a reason other
  than \<open>STOP\<close>, and in it the first part that carries inline data.
\<close>

definition firstCandidate :: "response option \<Rightarrow> candidate option" where
  "firstCandidate resp =
     (case resp of
        None \<Rightarrow> None
      | Some r \<Rightarrow> (case candidates r of None \<Rightarrow> None | Some [] \<Rightarrow> None | Some (c # _) \<Rightarrow> Some c))"

definition stoppedEarly :: "candidate \<Rightarrow> bool" where
  "stoppedEarly c = (case finishReason c of None \<Rightarrow> False | Some r \<Rightarrow> r \<noteq> [] \<and> r \<noteq> ''STOP'')"

definition firstImagePart :: "candidate \<Rightarrow> inline_data option" where
  "firstImagePart c =
     (case List.find (\<lambda>p. inlineData p \<noteq> None) (case contentParts c of None \<Rightarrow> [] | Some ps \<Rightarrow> ps) of
        None \<Rightarrow> None
      | Some p \<Rightarrow> inlineData p)"

definition imageOf :: "response option \<Rightarrow> inline_data option" where
  "imageOf resp =
     (case firstCandidate resp of
        None \<Rightarrow> None
      | Some c \<Rightarrow> if stoppedEarly c then None else firstImagePart c)"

text \<open>
  The retry ladder: the requests to try, in order, and a run down the ladder that stops
  at the first request that yields an image. A run gives the requests made, the last
  error met, and the image if there is one.
\<close>

definition ladder ::
  "string \<Rightarrow> string \<Rightarrow> string \<Rightarrow> string \<Rightarrow> ItemType \<Rightarrow> ServiceOptions \<Rightarrow> string \<Rightarrow> request list" where
  "ladder personBase64 personMime itemBase64 itemMime type options itemDescription =
     [generationRequest personBase64 personMime itemBase64 itemMime
        (primaryModel options) (strictPrompt type) (primaryConfig options),
      generationRequest personBase64 personMime itemBase64 itemMime
        (primaryModel options) (relaxedPrompt type itemDescription) (primaryConfig options)]
     @ (if modelMode options = Pro then
          [generationRequest personBase64 personMime itemBase64 itemMime
             fallbackModel (strictPrompt type) fallbackConfig]
        else [])"

fun runLadder ::
  "(request \<Rightarrow> thrown + string) \<Rightarrow> request list \<Rightarrow> request list \<times> thrown option \<times> string option" where
  "runLadder f [] = ([], None, None)"
| "runLadder f (r # rs) =
     (case f r of
        Inr img \<Rightarrow> ([r], None, Some img)
      | Inl e \<Rightarrow>
          (case runLadder f rs of
             (made, lastError, res) \<Rightarrow>
               (r # made, (case lastError of None \<Rightarrow> Some e | Some e' \<Rightarrow> Some e'), res)))"

text \<open>
  The classification: a reply mentions a word when it contains it in any letter case;
  the item is an accessory only when the reply mentions \<open>accessory\<close> and does not mention
  \<open>clothing\<close>.
\<close>

definition mentions :: "string \<Rightarrow> string \<Rightarrow> bool" where
  "mentions reply w = includesStr (toLowerCase reply) w"

definition classify :: "string option \<Rightarrow> ItemType" where
  "classify reply =
     (case reply of
        None \<Rightarrow> Clothing
      | Some s \<Rightarrow>
          if mentions s ''accessory'' \<and> \<not> mentions s ''clothing'' then Accessory else Clothing)"

section \<open>Responses, options and hosted models of the closed instances\<close>

definition imageResponse :: response where
  "imageResponse =
     \<lparr>respText = None,
      candidates = Some [\<lparr>finishReason = Some ''STOP'',
                          contentParts = Some [\<lparr>inlineData = Some \<lparr>mimeType = Some ''image/jpeg'',
                                                                     imgData = Some ''QUJD''\<rparr>,
                                                 partText = None\<rparr>]\<rparr>],
      blockReason = None\<rparr>"

definition textResponse :: "string \<Rightarrow> response" where
  "textResponse t = \<lparr>respText = Some t, candidates = None, blockReason = None\<rparr>"

definition proOptions :: ServiceOptions where
  "proOptions = \<lparr>modelMode = Pro, customApiKey = Some ''key'', onStatusUpdate = True\<rparr>"

definition flashOptions :: ServiceOptions where
  "flashOptions = \<lparr>modelMode = Flash, customApiKey = Some ''key'', onStatusUpdate = True\<rparr>"

definition noKeyOptions :: ServiceOptions where
  "noKeyOptions = \<lparr>modelMode = Pro, customApiKey = None, onStatusUpdate = True\<rparr>"

text \<open>
  Hosted models: one on which only the flash models answer (the text model with \<open>YES\<close>,
  the image model with an image); one that refuses every request; the first one again
  with the validation answered \<open>NO\<close>; one that answers every request with an image and no
  text; and one whose text model finds an accessory.
\<close>

definition flashOnlyEnv :: environment where
  "flashOnlyEnv =
     \<lparr>processEnvApiKey = None,
      generateContent = (\<lambda>k req.
        if model req = ''gemini-2.5-flash'' then Inr (textResponse ''YES'')
        else if model req = ''gemini-2.5-flash-image'' then Inr imageResponse
        else Inl (Error ''503 overloaded''))\<rparr>"

definition refusingEnv :: environment where
  "refusingEnv =
     \<lparr>processEnvApiKey = None,
      generateContent = (\<lambda>k req.
        if model req = ''gemini-2.5-flash'' then Inl (NonError ''offline'')
        else if Text StrictClothing \<in> set (contents req) then Inl (Error ''strict refused'')
        else Inl (Error ''relaxed refused''))\<rparr>"

definition rejectingReviewEnv :: environment where
  "rejectingReviewEnv =
     \<lparr>processEnvApiKey = None,
      generateContent = (\<lambda>k req.
        if Text ValidatePrompt \<in> set (contents req) then Inr (textResponse ''NO'')
        else generateContent flashOnlyEnv k req)\<rparr>"

definition imageOnlyEnv :: environment where
  "imageOnlyEnv = \<lparr>processEnvApiKey = None, generateContent = (\<lambda>k req. Inr imageResponse)\<rparr>"

definition accessoryEnv :: environment where
  "accessoryEnv =
     \<lparr>processEnvApiKey = None,
      generateContent = (\<lambda>k req.
        if model req = ''gemini-2.5-flash'' then Inr (textResponse '' An Accessory. '')
        else Inl (Error ''503 overloaded''))\<rparr>"




definition demoApp :: App where
  "demoApp =
     \<lparr>state = \<lparr>personImage = None, itemImage = None,
                generatedImage = Some ''data:image/jpeg;base64,QUJD'', appModelMode = Flash,
                flashApiKey = ''key''\<rparr>,
      history = [''data:image/png;base64,T0xE''],
      localProKey = [],
      isLocalEnv = True\<rparr>"

section \<open>Lemmas about the string functions\<close>

lemma splitOn_no_sep: "c \<notin> set s \<Longrightarrow> splitOn c s = [s]"
  by (induction s) auto

lemma splitOn_first_sep: "c \<notin> set h \<Longrightarrow> splitOn c (h @ c # s) = h # splitOn c s"
  by (induction h) auto

lemma splitOn_not_Nil: "splitOn c s \<noteq> []"
  by (induction s) (auto split: list.splits)

section \<open>\<open>cleanBase64\<close> (C7)\<close>

text \<open>
  C7, as stated, at the empty payload: for the comma-free header \<open>data:image/png;base64\<close>
  and the comma-free empty payload the function does not return the payload. The element
  after the comma is the empty string, which is falsy, so the whole input comes back.
\<close>

theorem cleanBase64_empty_payload_counterexample:
  "CHR '','' \<notin> set ''data:image/png;base64'' \<and> CHR '','' \<notin> set ''''
   \<and> cleanBase64 (''data:image/png;base64'' @ '','' @ '''') \<noteq> ''''"
  by (simp add: cleanBase64_def jsOr_def truthy_def)

text \<open>
  C7 (amended): for every header \<open>h\<close> without a comma and every non-empty payload \<open>s\<close>
  without a comma, \<open>cleanBase64 (h + ',' + s) = s\<close>; every string without a comma, and
  every string whose first comma is its final character, is returned unchanged.
\<close>

theorem cleanBase64_strips_header:
  "(CHR '','' \<notin> set h \<and> CHR '','' \<notin> set s \<and> s \<noteq> [] \<longrightarrow> cleanBase64 (h @ '','' @ s) = s)
   \<and> (CHR '','' \<notin> set t \<longrightarrow> cleanBase64 t = t)
   \<and> (CHR '','' \<notin> set h \<longrightarrow> cleanBase64 (h @ '','') = h @ '','')"
proof (intro conjI impI)
  assume a: "CHR '','' \<notin> set h \<and> CHR '','' \<notin> set s \<and> s \<noteq> []"
  then have "splitOn (CHR '','') (h @ CHR '','' # s) = [h, s]"
    by (simp add: splitOn_first_sep splitOn_no_sep)
  with a show "cleanBase64 (h @ '','' @ s) = s"
    by (simp add: cleanBase64_def jsOr_def truthy_def)
next
  assume "CHR '','' \<notin> set t"
  then have "splitOn (CHR '','') t = [t]"
    by (rule splitOn_no_sep)
  then show "cleanBase64 t = t"
    by (simp add: cleanBase64_def jsOr_def truthy_def)
next
  assume "CHR '','' \<notin> set h"
  then have "splitOn (CHR '','') (h @ CHR '','' # []) = [h, []]"
    by (simp add: splitOn_first_sep)
  then show "cleanBase64 (h @ '','') = h @ '',''"
    by (simp add: cleanBase64_def jsOr_def truthy_def)
qed

theorem cleanBase64_strips_header_witness:
  "cleanBase64 (''data:image/png;base64'' @ '','' @ ''QUJD'') = ''QUJD''
   \<and> cleanBase64 ''QUJD'' = ''QUJD''
   \<and> cleanBase64 (''data:image/png;base64'' @ '','') = ''data:image/png;base64'' @ '',''"
  using cleanBase64_strips_header [of "''data:image/png;base64''" "''QUJD''" "''QUJD''"]
  by simp

section \<open>The pattern of \<open>getMimeType\<close> against the direct parse (C8)\<close>


lemma splits_sound: "(a, r) \<in> set (splits p s) \<Longrightarrow> s = a @ r \<and> list_all p a"
  by (induction s arbitrary: a r) (auto split: if_splits)

lemma splits_complete: "list_all p a \<Longrightarrow> (a, r) \<in> set (splits p (a @ r))"
proof (induction a)
  case Nil
  then show ?case by (cases r) auto
next
  case (Cons x a)
  then show ?case by force
qed

lemma splits_first: "\<exists>rest. splits p s = (takeWhile p s, dropWhile p s) # rest"
  by (induction s) auto

lemma choices_sound: "(m, r) \<in> set (choices a s) \<Longrightarrow> s = m @ r \<and> conforms a m"
proof (cases a)
  case (Pair p q)
  assume h: "(m, r) \<in> set (choices a s)"
  show ?thesis
  proof (cases q)
    case Once
    with Pair h show ?thesis by (auto simp: conforms_def split: list.splits if_splits)
  next
    case Plus
    with Pair h show ?thesis by (auto simp: conforms_def dest: splits_sound)
  next
    case Star
    with Pair h show ?thesis by (auto simp: conforms_def dest: splits_sound)
  qed
qed

lemma rxAll_sound:
  "m \<in> set (rxAll as s) \<Longrightarrow> list_all2 conforms as m \<and> (\<exists>rest. s = concat m @ rest)"
proof (induction as arbitrary: m s)
  case Nil
  then show ?case by simp
next
  case (Cons a as)
  from Cons.prems obtain seg r m' where c: "(seg, r) \<in> set (choices a s)"
    and m': "m' \<in> set (rxAll as r)" and m: "m = seg # m'"
    by auto
  from choices_sound [OF c] have s: "s = seg @ r" and cf: "conforms a seg" by auto
  from Cons.IH [OF m'] obtain rest where "list_all2 conforms as m'" and "r = concat m' @ rest"
    by auto
  with s cf m show ?case by auto
qed

lemma rxAll_lit:
  "rxAll (lit c # as) s =
     (case s of [] \<Rightarrow> [] | x # xs \<Rightarrow> if x = c then map ((#) [x]) (rxAll as xs) else [])"
  by (simp add: lit_def split: list.splits)

lemma star_then_lit:
  "\<not> p c \<Longrightarrow>
   concat (map (\<lambda>(m, r). map ((#) (g m)) (rxAll (lit c # as) r)) (splits p s))
     = map ((#) (g (takeWhile p s))) (rxAll (lit c # as) (dropWhile p s))"
proof (induction s arbitrary: g)
  case Nil
  then show ?case by (simp add: rxAll_lit del: rxAll.simps)
next
  case (Cons x xs)
  show ?case
  proof (cases "p x")
    case True
    with Cons.prems have xc: "x \<noteq> c" by auto
    have "concat (map (\<lambda>(m, r). map ((#) (g m)) (rxAll (lit c # as) r)) (splits p (x # xs)))
        = concat (map (\<lambda>(m, r). map ((#) (g (x # m))) (rxAll (lit c # as) r)) (splits p xs))
          @ map ((#) (g [])) (rxAll (lit c # as) (x # xs))"
      using True by (simp add: o_def case_prod_unfold del: rxAll.simps)
    also have "rxAll (lit c # as) (x # xs) = []"
      using xc by (simp add: rxAll_lit del: rxAll.simps)
    also have "concat (map (\<lambda>(m, r). map ((#) (g (x # m))) (rxAll (lit c # as) r)) (splits p xs))
        = map ((#) (g (x # takeWhile p xs))) (rxAll (lit c # as) (dropWhile p xs))"
      using Cons.IH [OF Cons.prems, of "\<lambda>m. g (x # m)"] .
    finally show ?thesis using True by simp
  next
    case False
    then show ?thesis by (simp del: rxAll.simps)
  qed
qed

lemma plus_then_lit:
  assumes "\<not> p c"
  shows "rxAll ((p, Plus) # lit c # as) s =
     (case s of [] \<Rightarrow> []
      | x # xs \<Rightarrow> if p x then map ((#) (x # takeWhile p xs)) (rxAll (lit c # as) (dropWhile p xs))
                 else [])"
proof (cases s)
  case Nil
  then show ?thesis by simp
next
  case (Cons x xs)
  show ?thesis
  proof (cases "p x")
    case True
    have f: "filter (\<lambda>(a, r). a \<noteq> []) (splits p (x # xs)) = map (\<lambda>(a, r). (x # a, r)) (splits p xs)"
      using True by (simp add: filter_map o_def case_prod_unfold)
    have "rxAll ((p, Plus) # lit c # as) (x # xs)
        = concat (map (\<lambda>(m, r). map ((#) (x # m)) (rxAll (lit c # as) r)) (splits p xs))"
      unfolding rxAll.simps(2) [of "(p, Plus)"] choices.simps f
      by (simp add: o_def case_prod_unfold del: rxAll.simps)
    also have "\<dots> = map ((#) (x # takeWhile p xs)) (rxAll (lit c # as) (dropWhile p xs))"
      using star_then_lit [where p = p and c = c and g = "\<lambda>m. x # m", OF assms] .
    finally show ?thesis using Cons True by simp
  next
    case False
    with Cons show ?thesis by simp
  qed
qed

lemma tail_complete:
  assumes "CHR '','' \<in> set (takeWhile dot r)"
  shows "rxAll tailRegex r \<noteq> []"
proof -
  from assms obtain a b where ab: "takeWhile dot r = a @ CHR '','' # b"
    by (auto dest: split_list)
  have "list_all dot (takeWhile dot r)"
    by (simp add: list_all_iff) (meson set_takeWhileD)
  with ab have da: "list_all dot a" by simp
  have r: "r = a @ CHR '','' # (b @ dropWhile dot r)"
    using ab takeWhile_dropWhile_id [of dot r] by (metis append_Cons append_assoc)
  from splits_complete [OF da] r
  have mem: "(a, CHR '','' # (b @ dropWhile dot r)) \<in> set (splits dot r)"
    by metis
  obtain rest where sp: "splits dot (b @ dropWhile dot r) = (takeWhile dot (b @ dropWhile dot r), dropWhile dot (b @ dropWhile dot r)) # rest"
    using splits_first by blast
  have "rxAll [lit (CHR '',''), (dot, Star)] (CHR '','' # (b @ dropWhile dot r)) \<noteq> []"
    unfolding rxAll_lit using sp by simp
  with mem show ?thesis
    unfolding tailRegex_def by (force simp del: splits.simps)
qed

lemma tail_sound:
  assumes "rxAll tailRegex r \<noteq> []"
  shows "CHR '','' \<in> set (takeWhile dot r)"
proof -
  from assms obtain m where "m \<in> set (rxAll tailRegex r)"
    by (cases "rxAll tailRegex r") auto
  from rxAll_sound [OF this] obtain rest where c: "list_all2 conforms tailRegex m"
    and r: "r = concat m @ rest" by auto
  from c obtain a b d where m: "m = [a, b, d]" and a: "conforms (dot, Star) a"
    and b: "conforms (lit (CHR '','')) b"
    by (auto simp: tailRegex_def list_all2_Cons1)
  from b have "b = [CHR '','']"
    by (cases b) (auto simp: conforms_def lit_def)
  with r m have "r = a @ CHR '','' # (d @ rest)" by simp
  moreover from a have "\<forall>x\<in>set a. dot x" by (simp add: conforms_def list_all_iff)
  ultimately have "takeWhile dot r = a @ takeWhile dot (CHR '','' # (d @ rest))"
    by (simp add: takeWhile_append2)
  then show ?thesis by (simp add: dot_def)
qed

lemma takeWhile_after_dropWhile:
  "(\<And>x. p x \<Longrightarrow> d x) \<Longrightarrow> \<not> p c \<Longrightarrow> c \<in> set (takeWhile d r) \<Longrightarrow> c \<in> set (takeWhile d (dropWhile p r))"
  by (induction r) (auto split: if_splits)

lemma rxAll_lits:
  "rxAll (map lit w @ as) s =
     (if take (length w) s = w then map (\<lambda>m. map (\<lambda>c. [c]) w @ m) (rxAll as (drop (length w) s))
      else [])"
proof (induction w arbitrary: s)
  case Nil
  have "(@) ([] :: string list) = (\<lambda>m. m)" by auto
  then show ?case by simp
next
  case (Cons c w)
  show ?case
  proof (cases s)
    case Nil
    then show ?thesis by (simp add: rxAll_lit del: rxAll.simps)
  next
    case (Cons x xs)
    then show ?thesis
      using Cons.IH [of xs] by (auto simp add: rxAll_lit o_def simp del: rxAll.simps)
  qed
qed

lemma not_alnum_slash: "\<not> alnum (CHR ''/'')"
  by (simp add: alnum_def inRange_def)

lemma not_subtypeChar_comma: "\<not> subtypeChar (CHR '','')"
  by (simp add: subtypeChar_def alnum_def inRange_def)

lemma subtypeChar_dot: "subtypeChar x \<Longrightarrow> dot x"
  by (auto simp: subtypeChar_def alnum_def inRange_def dot_def)

lemma typeRegex_step:
  "rxAll typeRegex r =
     (if takeWhile alnum r \<noteq> [] then
        (case dropWhile alnum r of [] \<Rightarrow> []
         | c # r2 \<Rightarrow> if c = CHR ''/'' then map (\<lambda>m. takeWhile alnum r # [c] # m) (rxAll subRegex r2) else [])
      else [])"
proof (cases r)
  case Nil
  then show ?thesis
    unfolding typeRegex_def plus_then_lit [where p = alnum and c = "CHR ''/''", OF not_alnum_slash] by simp
next
  case (Cons x xs)
  show ?thesis
  proof (cases "alnum x")
    case False
    with Cons show ?thesis
      unfolding typeRegex_def plus_then_lit [where p = alnum and c = "CHR ''/''", OF not_alnum_slash]
      by simp
  next
    case True
    with Cons have tw: "takeWhile alnum r = x # takeWhile alnum xs"
      and dw: "dropWhile alnum r = dropWhile alnum xs" by simp_all
    show ?thesis
      unfolding typeRegex_def plus_then_lit [where p = alnum and c = "CHR ''/''", OF not_alnum_slash]
        rxAll_lit tw dw Cons
      using True by (simp add: o_def del: rxAll.simps dropWhile_eq_Nil_conv split: list.split)
  qed
qed

lemma subRegex_empty:
  assumes "\<not> (takeWhile subtypeChar r2 \<noteq> [] \<and> CHR '','' \<in> set (takeWhile dot (dropWhile subtypeChar r2)))"
  shows "rxAll subRegex r2 = []"
proof (rule ccontr)
  assume "rxAll subRegex r2 \<noteq> []"
  then obtain m where "m \<in> set (rxAll subRegex r2)"
    by (cases "rxAll subRegex r2") auto
  then obtain a r m' where c: "(a, r) \<in> set (choices (subtypeChar, Plus) r2)"
    and m': "m' \<in> set (rxAll tailRegex r)"
    by (auto simp: subRegex_def)
  from c have sp: "(a, r) \<in> set (splits subtypeChar r2)" and ne: "a \<noteq> []" by auto
  from splits_sound [OF sp] have r2: "r2 = a @ r" and all: "\<forall>x\<in>set a. subtypeChar x"
    by (auto simp: list_all_iff)
  from all r2 have tw: "takeWhile subtypeChar r2 = a @ takeWhile subtypeChar r"
    and dw: "dropWhile subtypeChar r2 = dropWhile subtypeChar r"
    by (simp_all add: takeWhile_append2 dropWhile_append2)
  from m' have "rxAll tailRegex r \<noteq> []" by auto
  then have "CHR '','' \<in> set (takeWhile dot r)" by (rule tail_sound)
  then have "CHR '','' \<in> set (takeWhile dot (dropWhile subtypeChar r))"
    using subtypeChar_dot not_subtypeChar_comma by (rule takeWhile_after_dropWhile [rotated 2])
  with tw dw ne assms show False by simp
qed

lemma subRegex_first:
  assumes "takeWhile subtypeChar r2 \<noteq> []"
    and "CHR '','' \<in> set (takeWhile dot (dropWhile subtypeChar r2))"
  shows "\<exists>x rest. rxAll subRegex r2 = (takeWhile subtypeChar r2 # x) # rest"
proof -
  obtain rest where sp: "splits subtypeChar r2 = (takeWhile subtypeChar r2, dropWhile subtypeChar r2) # rest"
    using splits_first by blast
  from tail_complete [OF assms(2)] obtain x xs
    where t: "rxAll tailRegex (dropWhile subtypeChar r2) = x # xs"
    by (cases "rxAll tailRegex (dropWhile subtypeChar r2)") auto
  show ?thesis
    unfolding subRegex_def rxAll.simps(2) [of "(subtypeChar, Plus)"] choices.simps sp
    using assms(1) t by simp
qed

lemma mimeRegex_step:
  "rxAll mimeRegex t =
     (if take 5 t = ''data:'' then map (\<lambda>m. [''d'', ''a'', ''t'', ''a'', '':''] @ m) (rxAll typeRegex (drop 5 t))
      else [])"
  unfolding mimeRegex_def rxAll_lits by (simp add: eval_nat_numeral)

lemma regex_at_prefix:
  "(case rxAll mimeRegex t of [] \<Rightarrow> None | segs # _ \<Rightarrow> Some (concat (take 3 (drop 5 segs))))
     = wellFormedPrefix t"
proof (cases "take 5 t = ''data:''")
  case False
  then show ?thesis
    unfolding mimeRegex_step by (simp add: wellFormedPrefix_def)
next
  case True
  define r where "r = drop 5 t"
  have m: "rxAll mimeRegex t = map (\<lambda>m. [''d'', ''a'', ''t'', ''a'', '':''] @ m) (rxAll typeRegex r)"
    unfolding mimeRegex_step r_def using True by simp
  show ?thesis
  proof (cases "takeWhile alnum r \<noteq> [] \<and> (\<exists>r2. dropWhile alnum r = CHR ''/'' # r2)")
    case False
    then have "rxAll typeRegex r = []"
      unfolding typeRegex_step by (auto split: list.splits)
    moreover from False True have "wellFormedPrefix t = None"
      by (auto simp: wellFormedPrefix_def Let_def r_def split: list.splits)
    ultimately show ?thesis using m by simp
  next
    case ty: True
    then obtain r2 where r2: "dropWhile alnum r = CHR ''/'' # r2" by blast
    with ty have tr: "rxAll typeRegex r = map (\<lambda>m. takeWhile alnum r # ''/'' # m) (rxAll subRegex r2)"
      unfolding typeRegex_step by simp
    show ?thesis
    proof (cases "takeWhile subtypeChar r2 \<noteq> [] \<and> CHR '','' \<in> set (takeWhile dot (dropWhile subtypeChar r2))")
      case False
      from subRegex_empty [OF this] have "rxAll subRegex r2 = []" .
      moreover from False True r2 have "wellFormedPrefix t = None"
        by (auto simp: wellFormedPrefix_def Let_def r_def)
      ultimately show ?thesis using m tr by simp
    next
      case sub: True
      then obtain x rest where "rxAll subRegex r2 = (takeWhile subtypeChar r2 # x) # rest"
        using subRegex_first by blast
      moreover from sub ty True r2
      have "wellFormedPrefix t = Some (takeWhile alnum r @ ''/'' @ takeWhile subtypeChar r2)"
        by (simp add: wellFormedPrefix_def Let_def r_def)
      ultimately show ?thesis using m tr by simp
    qed
  qed
qed

lemma searchFrom_first: "rxAll r s = m # ms \<Longrightarrow> searchFrom r s = Some m"
  by (cases s) simp_all

lemma searchFrom_findHeader:
  "map_option (\<lambda>segs. concat (take 3 (drop 5 segs))) (searchFrom mimeRegex s) = findHeader s"
proof (induction s)
  case Nil
  show ?case
    using regex_at_prefix [of "[]"] by (simp split: list.splits)
next
  case (Cons x xs)
  show ?case
  proof (cases "rxAll mimeRegex (x # xs)")
    case Nil
    with regex_at_prefix [of "x # xs"] Cons.IH show ?thesis by simp
  next
    case (Cons m ms)
    with regex_at_prefix [of "x # xs"]
    have "wellFormedPrefix (x # xs) = Some (concat (take 3 (drop 5 m)))" by simp
    with Cons show ?thesis by simp
  qed
qed

lemma getMimeType_findHeader:
  "getMimeType s = (case findHeader s of Some m \<Rightarrow> m | None \<Rightarrow> ''image/png'')"
  using searchFrom_findHeader [of s]
  by (cases "searchFrom mimeRegex s") (auto simp: getMimeType_def regexMatch_def)

lemma findHeader_prefix: "wellFormedPrefix s = Some m \<Longrightarrow> findHeader s = Some m"
  by (cases s) simp_all


lemma findHeader_None:
  "findHeader s = None \<longleftrightarrow> (\<forall>i\<le>length s. wellFormedPrefix (drop i s) = None)"
proof (induction s)
  case Nil
  show ?case by simp
next
  case (Cons x xs)
  have "(\<forall>i\<le>length (x # xs). wellFormedPrefix (drop i (x # xs)) = None)
      \<longleftrightarrow> wellFormedPrefix (x # xs) = None \<and> (\<forall>i\<le>length xs. wellFormedPrefix (drop i xs) = None)"
    (is "?L \<longleftrightarrow> ?R")
  proof
    assume l: ?L
    then have "wellFormedPrefix (drop 0 (x # xs)) = None" by blast
    moreover have "\<forall>i\<le>length xs. wellFormedPrefix (drop i xs) = None"
    proof (intro allI impI)
      fix i assume "i \<le> length xs"
      with l have "wellFormedPrefix (drop (Suc i) (x # xs)) = None" by auto
      then show "wellFormedPrefix (drop i xs) = None" by simp
    qed
    ultimately show ?R by simp
  next
    assume r: ?R
    show ?L
    proof (intro allI impI)
      fix i assume "i \<le> length (x # xs)"
      with r show "wellFormedPrefix (drop i (x # xs)) = None" by (cases i) auto
    qed
  qed
  with Cons.IH show ?case by (auto split: option.splits)
qed

text \<open>
  C8, as stated, at a string that does not start with a header: the pattern has no \<open>^\<close>,
  so a header further right in the string is found and parsed, and the result is not the
  default.
\<close>

theorem getMimeType_unanchored_counterexample:
  "take 5 ''url(data:image/jpeg;base64,AAAA)'' \<noteq> ''data:''
   \<and> wellFormedPrefix ''url(data:image/jpeg;base64,AAAA)'' = None
   \<and> getMimeType ''url(data:image/jpeg;base64,AAAA)'' = ''image/jpeg''
   \<and> getMimeType ''url(data:image/jpeg;base64,AAAA)'' \<noteq> ''image/png''"
  by (simp add: getMimeType_findHeader wellFormedPrefix_def alnum_def subtypeChar_def dot_def
      inRange_def)

text \<open>
  C8 (amended): for every string that starts with a well-formed header, \<open>getMimeType\<close>
  returns the type parsed from it; for every string that carries no well-formed header at
  any position it returns \<open>image/png\<close>; in general it returns the type of the leftmost
  header in the string.
\<close>

theorem getMimeType_header:
  "(wellFormedPrefix s = Some m \<longrightarrow> getMimeType s = m)
   \<and> ((\<forall>i\<le>length s. wellFormedPrefix (drop i s) = None) \<longrightarrow> getMimeType s = ''image/png'')
   \<and> getMimeType s = (case findHeader s of Some h \<Rightarrow> h | None \<Rightarrow> ''image/png'')"
proof (intro conjI impI)
  assume "wellFormedPrefix s = Some m"
  then have "findHeader s = Some m" by (rule findHeader_prefix)
  then show "getMimeType s = m" by (simp add: getMimeType_findHeader)
next
  assume "\<forall>i\<le>length s. wellFormedPrefix (drop i s) = None"
  then have "findHeader s = None" by (simp only: findHeader_None)
  then show "getMimeType s = ''image/png''" by (simp add: getMimeType_findHeader)
next
  show "getMimeType s = (case findHeader s of Some h \<Rightarrow> h | None \<Rightarrow> ''image/png'')"
    by (rule getMimeType_findHeader)
qed

theorem getMimeType_header_witness:
  "wellFormedPrefix ''data:image/webp;base64,QUJD'' = Some ''image/webp''
   \<and> getMimeType ''data:image/webp;base64,QUJD'' = ''image/webp''
   \<and> findHeader ''QUJD'' = None
   \<and> getMimeType ''QUJD'' = ''image/png''"
proof -
  have a: "wellFormedPrefix ''data:image/webp;base64,QUJD'' = Some ''image/webp''"
    by (simp add: wellFormedPrefix_def alnum_def subtypeChar_def dot_def inRange_def)
  have c: "findHeader ''QUJD'' = None"
    by (simp add: wellFormedPrefix_def)
  then have b: "\<forall>i\<le>length ''QUJD''. wellFormedPrefix (drop i ''QUJD'') = None"
    by (simp only: findHeader_None)
  from a b c getMimeType_header [of "''data:image/webp;base64,QUJD''" "''image/webp''"]
    getMimeType_header [of "''QUJD''" "''x''"]
  show ?thesis by blast
qed

section \<open>What \<open>extractImageFromResponse\<close> returns\<close>

lemma find_inline_Some:
  "List.find (\<lambda>p. inlineData p \<noteq> None) ps = Some p \<Longrightarrow> \<exists>d. inlineData p = Some d"
  by (auto simp: find_Some_iff)

lemma extractFromParts_image:
  "extractFromParts ps = Inr s \<longleftrightarrow>
     (\<exists>p d. List.find (\<lambda>p. inlineData p \<noteq> None) ps = Some p \<and> inlineData p = Some d \<and> s = dataUrl d)"
  by (cases ps) (auto simp: extractFromParts_def split: option.splits dest: find_inline_Some)

lemma extract_image:
  "extractImageFromResponse resp = Inr s \<longleftrightarrow> (\<exists>d. imageOf resp = Some d \<and> s = dataUrl d)"
  by (auto simp: extractImageFromResponse_def imageOf_def firstCandidate_def stoppedEarly_def
      firstImagePart_def extractFromParts_image
      split: option.splits list.splits if_splits)

lemma dataUrl_shape:
  "dataUrl d = ''data:''
     @ (case mimeType d of None \<Rightarrow> ''image/png'' | Some m \<Rightarrow> if m = [] then ''image/png'' else m)
     @ '';base64,''
     @ (case imgData d of None \<Rightarrow> ''undefined'' | Some b \<Rightarrow> b)"
  by (simp add: dataUrl_def jsOr_def truthy_def split: option.splits)

lemma dataUrl_nonempty: "dataUrl d \<noteq> []"
  by (simp add: dataUrl_def)

section \<open>The retry section of \<open>generateTryOn\<close> against the ladder\<close>

lemma apiCalls_append: "apiCalls (a @ b) = apiCalls a @ apiCalls b"
  by (induction a rule: apiCalls.induct) simp_all

lemma apiCalls_statusUpdate: "apiCalls (statusUpdate options s tr) = apiCalls tr"
  by (simp add: statusUpdate_def apiCalls_append)

lemma executeGeneration_eq:
  "executeGeneration env ai req tr =
     (genOutcome env ai req,
      tr @ [ConsoleLog (''Attempting generation with model: '' @ model req), ApiCall ai req])"
  by (simp add: executeGeneration_def callModel_def genOutcome_def split: sum.splits)

lemma attempt_eq:
  "attempt w env ai req ((g, l), tr) =
     (case genOutcome env ai req of
        Inr img \<Rightarrow>
          ((Some img, l),
           tr @ [ConsoleLog (''Attempting generation with model: '' @ model req), ApiCall ai req])
      | Inl err \<Rightarrow>
          ((g, Some err),
           tr @ [ConsoleLog (''Attempting generation with model: '' @ model req), ApiCall ai req,
                 ConsoleWarn w (Some err)]))"
  by (simp add: attempt_def executeGeneration_eq split: sum.splits)

lemma genOutcome_image:
  "genOutcome env ai req = Inr img \<Longrightarrow>
     \<exists>resp d. generateContent env ai req = Inr resp \<and> imageOf (Some resp) = Some d \<and> img = dataUrl d"
  by (auto simp: genOutcome_def extract_image split: sum.splits)

lemma genOutcome_truthy: "genOutcome env ai req = Inr img \<Longrightarrow> img \<noteq> []"
  by (auto dest!: genOutcome_image simp: dataUrl_nonempty)

lemma retryLoop_ladder:
  "retryLoop p pm i im type options env ai d tr =
     (case runLadder (genOutcome env ai) (ladder p pm i im type options d) of
        (made, lastError, res) \<Rightarrow>
          ((res, lastError), snd (retryLoop p pm i im type options env ai d tr)))
   \<and> apiCalls (snd (retryLoop p pm i im type options env ai d tr))
       = apiCalls tr @ fst (runLadder (genOutcome env ai) (ladder p pm i im type options d))"
proof -
  let ?g = "generationRequest p pm i im"
  let ?r1 = "?g (primaryModel options) (strictPrompt type) (primaryConfig options)"
  let ?r2 = "?g (primaryModel options) (relaxedPrompt type d) (primaryConfig options)"
  let ?r3 = "?g fallbackModel (strictPrompt type) fallbackConfig"
  show ?thesis
  proof (cases "genOutcome env ai ?r1")
    case (Inr img)
    then have "img \<noteq> []" by (rule genOutcome_truthy)
    with Inr show ?thesis
      by (simp add: retryLoop_def Let_def ladder_def attempt_eq truthy_def apiCalls_append)
  next
    case e1: (Inl e1)
    show ?thesis
    proof (cases "genOutcome env ai ?r2")
      case (Inr img)
      then have "img \<noteq> []" by (rule genOutcome_truthy)
      with Inr e1 show ?thesis
        by (simp add: retryLoop_def Let_def ladder_def attempt_eq truthy_def apiCalls_append
            apiCalls_statusUpdate)
    next
      case e2: (Inl e2)
      show ?thesis
      proof (cases "modelMode options")
        case Flash
        with e1 e2 show ?thesis
          by (simp add: retryLoop_def Let_def ladder_def attempt_eq truthy_def apiCalls_append
              apiCalls_statusUpdate)
      next
        case Pro
        show ?thesis
        proof (cases "genOutcome env ai ?r3")
          case (Inr img)
          with Pro e1 e2 show ?thesis
            by (simp add: retryLoop_def Let_def ladder_def attempt_eq truthy_def apiCalls_append
                apiCalls_statusUpdate)
        next
          case (Inl e3)
          with Pro e1 e2 show ?thesis
            by (simp add: retryLoop_def Let_def ladder_def attempt_eq truthy_def apiCalls_append
                apiCalls_statusUpdate)
        qed
      qed
    qed
  qed
qed

lemma getItemDescription_tr:
  "getItemDescription i im options env tr =
     (fst (getItemDescription i im options env []), tr @ snd (getItemDescription i im options env []))"
  by (simp add: getItemDescription_def callModel_def split: sum.splits option.splits)

lemma getItemDescription_calls:
  "getAiClient options env = Inr ai \<Longrightarrow>
     apiCalls (snd (getItemDescription i im options env [])) = [describeRequest i im]"
  by (simp add: getItemDescription_def callModel_def split: sum.splits option.splits)

lemma validateResult_tr:
  "validateResult img options env tr =
     (fst (validateResult img options env []), tr @ snd (validateResult img options env []))"
  by (simp add: validateResult_def callModel_def split: sum.splits option.splits)

lemma validateResult_calls:
  "getAiClient options env = Inr ai \<Longrightarrow>
     apiCalls (snd (validateResult img options env [])) = [validateRequest img]"
  by (simp add: validateResult_def callModel_def split: sum.splits option.splits)

lemma generateTryOn_no_key:
  "getAiClient options env = Inl e \<Longrightarrow>
     generateTryOn p pm i im type options env tr = (Inl e, tr)"
  by (simp add: generateTryOn_def)

lemma runLadder_image: "runLadder f rs = (m, l, Some x) \<Longrightarrow> \<exists>r. f r = Inr x"
  by (induction rs arbitrary: m l) (auto split: sum.splits prod.splits)

lemma generateTryOn_ladder:
  assumes key: "getAiClient options env = Inr ai"
    and run: "runLadder (genOutcome env ai)
                (ladder p pm i im type options (fst (getItemDescription i im options env [])))
              = (made, lastError, res)"
  shows "fst (generateTryOn p pm i im type options env tr) =
           (case res of
              Some img \<Rightarrow> Inr img
            | None \<Rightarrow> Inl (Error (''Generation failed: '' @ errorMessage lastError)))"
    and "apiCalls (snd (generateTryOn p pm i im type options env tr)) =
           apiCalls tr @ describeRequest i im # made
             @ (case res of Some img \<Rightarrow> [validateRequest img] | None \<Rightarrow> [])"
proof -
  define d where "d = fst (getItemDescription i im options env [])"
  define tr1 where "tr1 = statusUpdate options ''Analyzing item details...'' tr
                @ snd (getItemDescription i im options env [])"
  define tr2 where "tr2 = statusUpdate options ''Synthesizing try-on...''
                (tr1 @ [ConsoleLog (''Generated Item Description: '' @ d)])"
  define lp where "lp = retryLoop p pm i im type options env ai d tr2"
  have gd: "getItemDescription i im options env
              (statusUpdate options ''Analyzing item details...'' tr) = (d, tr1)"
    unfolding d_def tr1_def by (rule getItemDescription_tr)
  from retryLoop_ladder [of p pm i im type options env ai d tr2] run
  have loop: "lp = ((res, lastError), snd lp)"
    and calls: "apiCalls (snd lp) = apiCalls tr2 @ made"
    unfolding lp_def d_def by simp_all
  have c1: "apiCalls tr1 = apiCalls tr @ [describeRequest i im]"
    unfolding tr1_def
    by (simp add: apiCalls_statusUpdate apiCalls_append getItemDescription_calls [OF key])
  have c2: "apiCalls tr2 = apiCalls tr @ [describeRequest i im]"
    unfolding tr2_def by (simp add: apiCalls_statusUpdate apiCalls_append c1)
  have res_ne: "res \<noteq> Some []"
  proof
    assume r: "res = Some []"
    from runLadder_image [OF run [unfolded r]] obtain q where "genOutcome env ai q = Inr []"
      by blast
    then show False by (auto dest: genOutcome_truthy)
  qed
  have unfold: "generateTryOn p pm i im type options env tr =
      (case res of
         None \<Rightarrow> (Inl (Error (''Generation failed: '' @ errorMessage lastError)), snd lp)
       | Some img \<Rightarrow>
           (case validateResult img options env
                   (statusUpdate options ''Reviewing result quality...'' (snd lp)) of
              (isValid, tr3) \<Rightarrow>
                (Inr img,
                 if \<not> isValid then
                   tr3 @ [ConsoleWarn ''Internal review failed: Image might not show a person.'' None]
                 else tr3)))"
    unfolding generateTryOn_def key sum.case gd prod.case
    unfolding tr2_def [symmetric]
    unfolding lp_def [symmetric]
    apply (subst loop)
    unfolding prod.case errorMessage_def
    using res_ne by (cases res) simp_all
  show "fst (generateTryOn p pm i im type options env tr) =
           (case res of
              Some img \<Rightarrow> Inr img
            | None \<Rightarrow> Inl (Error (''Generation failed: '' @ errorMessage lastError)))"
    unfolding unfold by (simp add: case_prod_unfold split: option.splits)
  show "apiCalls (snd (generateTryOn p pm i im type options env tr)) =
           apiCalls tr @ describeRequest i im # made
             @ (case res of Some img \<Rightarrow> [validateRequest img] | None \<Rightarrow> [])"
  proof (cases res)
    case None
    then show ?thesis unfolding unfold by (simp add: calls c2)
  next
    case (Some img)
    have "apiCalls (snd (validateResult img options env
            (statusUpdate options ''Reviewing result quality...'' (snd lp))))
          = apiCalls (snd lp) @ [validateRequest img]"
      by (subst validateResult_tr)
        (simp add: apiCalls_append apiCalls_statusUpdate validateResult_calls [OF key])
    with Some show ?thesis
      unfolding unfold by (simp add: case_prod_unfold calls c2 apiCalls_append)
  qed
qed

section \<open>The orchestration sequence (C1, C2)\<close>

text \<open>Definitions to unfold in the closed instances.\<close>

lemmas example_defs =
  imageResponse_def textResponse_def proOptions_def flashOptions_def noKeyOptions_def
  flashOnlyEnv_def refusingEnv_def

lemmas service_defs =
  getAiClient_def jsOr_def truthy_def statusUpdate_def callModel_def describeRequest_def
  getItemDescription_def validateRequest_def validateResult_def generationRequest_def
  executeGeneration_def attempt_def primaryModel_def fallbackModel_def primaryConfig_def
  fallbackConfig_def strictPrompt_def relaxedPrompt_def retryLoop_def generateTryOn_def
  extractImageFromResponse_def extractFromParts_def dataUrl_def noCandidates_def

lemma runLadder_prefix: "runLadder f rs = (made, l, res) \<Longrightarrow> \<exists>n. made = take n rs"
proof (induction rs arbitrary: made l res)
  case Nil
  then show ?case by simp
next
  case (Cons r rs)
  show ?case
  proof (cases "f r")
    case (Inr img)
    with Cons.prems have "made = take 1 (r # rs)" by simp
    then show ?thesis by blast
  next
    case (Inl e)
    with Cons.prems obtain made' l' where m: "made = r # made'"
      and run: "runLadder f rs = (made', l', res)"
      by (auto split: prod.splits)
    from Cons.IH [OF run] obtain n where "made' = take n rs" by blast
    with m have "made = take (Suc n) (r # rs)" by simp
    then show ?thesis by blast
  qed
qed

lemma runLadder_stops:
  "runLadder f rs = (made, l, res) \<Longrightarrow>
     (\<forall>r\<in>set (butlast made). isl (f r))
     \<and> (case res of
          Some img \<Rightarrow> made \<noteq> [] \<and> f (last made) = Inr img
        | None \<Rightarrow> made = rs \<and> (\<forall>r\<in>set rs. isl (f r)))"
proof (induction rs arbitrary: made l res)
  case Nil
  then show ?case by simp
next
  case (Cons r rs)
  show ?case
  proof (cases "f r")
    case (Inr img)
    with Cons.prems show ?thesis by auto
  next
    case (Inl e)
    with Cons.prems obtain made' l' where m: "made = r # made'"
      and run: "runLadder f rs = (made', l', res)"
      by (auto split: prod.splits)
    from Cons.IH [OF run] m Inl show ?thesis
      by (cases res) (auto simp: butlast.simps(2) split: if_splits)
  qed
qed

text \<open>
  C1, as stated, on two inputs. Without an API key nothing of the sequence runs: the call
  throws before any request. In flash mode with every attempt failing, only two generation
  requests are sent (there is no third attempt), and no validation follows.
\<close>

theorem generateTryOn_sequence_counterexample:
  "generateTryOn ''P'' ''image/png'' ''I'' ''image/png'' Clothing noKeyOptions refusingEnv []
     = (Inl noApiKey, [])
   \<and> apiCalls (snd (generateTryOn ''P'' ''image/png'' ''I'' ''image/png'' Clothing flashOptions
                      refusingEnv []))
     = [describeRequest ''I'' ''image/png'',
        generationRequest ''P'' ''image/png'' ''I'' ''image/png'' ''gemini-2.5-flash-image''
          StrictClothing \<lparr>aspectRatio = ''3:4'', imageSize = None\<rparr>,
        generationRequest ''P'' ''image/png'' ''I'' ''image/png'' ''gemini-2.5-flash-image''
          (RelaxedClothing ''stylish clothing item'') \<lparr>aspectRatio = ''3:4'', imageSize = None\<rparr>]"
  by (simp add: example_defs service_defs)

text \<open>
  C1 (amended): given an API key, \<open>generateTryOn\<close> first requests the item description,
  then runs down the ladder of generation requests (primary model with the strict prompt,
  primary model with the relaxed prompt and, in pro mode only, the fallback model with the
  strict prompt), stopping at the first request that yields an image; when a request
  yielded an image it sends one validation request for that image and returns the image,
  otherwise it throws without validating.
\<close>

theorem generateTryOn_sequence:
  assumes "getAiClient options env = Inr ai"
    and "runLadder (genOutcome env ai)
           (ladder p pm i im type options (fst (getItemDescription i im options env [])))
         = (made, lastError, res)"
  shows "apiCalls (snd (generateTryOn p pm i im type options env tr))
           = apiCalls tr @ describeRequest i im # made
               @ (case res of Some img \<Rightarrow> [validateRequest img] | None \<Rightarrow> [])
         \<and> fst (generateTryOn p pm i im type options env tr)
           = (case res of
                Some img \<Rightarrow> Inr img
              | None \<Rightarrow> Inl (Error (''Generation failed: '' @ errorMessage lastError)))
         \<and> (\<exists>n. made = take n (ladder p pm i im type options
                                  (fst (getItemDescription i im options env []))))
         \<and> (\<forall>r\<in>set (butlast made). isl (genOutcome env ai r))
         \<and> (case res of
              Some img \<Rightarrow> made \<noteq> [] \<and> genOutcome env ai (last made) = Inr img
            | None \<Rightarrow>
                made = ladder p pm i im type options (fst (getItemDescription i im options env []))
                \<and> (\<forall>r\<in>set made. isl (genOutcome env ai r)))"
proof (intro conjI)
  show "apiCalls (snd (generateTryOn p pm i im type options env tr))
           = apiCalls tr @ describeRequest i im # made
               @ (case res of Some img \<Rightarrow> [validateRequest img] | None \<Rightarrow> [])"
    using assms by (rule generateTryOn_ladder(2))
  show "fst (generateTryOn p pm i im type options env tr)
           = (case res of
                Some img \<Rightarrow> Inr img
              | None \<Rightarrow> Inl (Error (''Generation failed: '' @ errorMessage lastError)))"
    using assms by (rule generateTryOn_ladder(1))
  show "\<exists>n. made = take n (ladder p pm i im type options
                                  (fst (getItemDescription i im options env [])))"
    using assms(2) by (rule runLadder_prefix)
  from runLadder_stops [OF assms(2)]
  show "\<forall>r\<in>set (butlast made). isl (genOutcome env ai r)"
    and "case res of
              Some img \<Rightarrow> made \<noteq> [] \<and> genOutcome env ai (last made) = Inr img
            | None \<Rightarrow>
                made = ladder p pm i im type options (fst (getItemDescription i im options env []))
                \<and> (\<forall>r\<in>set made. isl (genOutcome env ai r))"
    by (auto split: option.splits)
qed

theorem generateTryOn_sequence_witness:
  "apiCalls (snd (generateTryOn ''P'' ''image/png'' ''I'' ''image/png'' Clothing proOptions
                    flashOnlyEnv []))
     = [describeRequest ''I'' ''image/png'',
        generationRequest ''P'' ''image/png'' ''I'' ''image/png'' ''gemini-3-pro-image-preview''
          StrictClothing \<lparr>aspectRatio = ''3:4'', imageSize = Some ''1K''\<rparr>,
        generationRequest ''P'' ''image/png'' ''I'' ''image/png'' ''gemini-3-pro-image-preview''
          (RelaxedClothing ''YES'') \<lparr>aspectRatio = ''3:4'', imageSize = Some ''1K''\<rparr>,
        generationRequest ''P'' ''image/png'' ''I'' ''image/png'' ''gemini-2.5-flash-image''
          StrictClothing \<lparr>aspectRatio = ''3:4'', imageSize = None\<rparr>,
        validateRequest ''data:image/jpeg;base64,QUJD'']
   \<and> fst (generateTryOn ''P'' ''image/png'' ''I'' ''image/png'' Clothing proOptions flashOnlyEnv [])
     = Inr ''data:image/jpeg;base64,QUJD''"
proof -
  have key: "getAiClient proOptions flashOnlyEnv = Inr ''key''"
    by (simp add: example_defs service_defs)
  have d: "fst (getItemDescription ''I'' ''image/png'' proOptions flashOnlyEnv []) = ''YES''"
    by (simp add: example_defs service_defs trim_def isSpace_def inRange_def)
  have run: "runLadder (genOutcome flashOnlyEnv ''key'')
           (ladder ''P'' ''image/png'' ''I'' ''image/png'' Clothing proOptions
              (fst (getItemDescription ''I'' ''image/png'' proOptions flashOnlyEnv [])))
         = ([generationRequest ''P'' ''image/png'' ''I'' ''image/png'' ''gemini-3-pro-image-preview''
               StrictClothing \<lparr>aspectRatio = ''3:4'', imageSize = Some ''1K''\<rparr>,
             generationRequest ''P'' ''image/png'' ''I'' ''image/png'' ''gemini-3-pro-image-preview''
               (RelaxedClothing ''YES'') \<lparr>aspectRatio = ''3:4'', imageSize = Some ''1K''\<rparr>,
             generationRequest ''P'' ''image/png'' ''I'' ''image/png'' ''gemini-2.5-flash-image''
               StrictClothing \<lparr>aspectRatio = ''3:4'', imageSize = None\<rparr>],
            Some (Error ''503 overloaded''), Some ''data:image/jpeg;base64,QUJD'')"
    unfolding d by (simp add: ladder_def genOutcome_def example_defs service_defs)
  from generateTryOn_sequence [OF key run, of "[]"] show ?thesis by simp
qed

text \<open>
  C2, as stated, in flash mode: both attempts with the primary model fail, and no further
  request is sent; the call gives up with the error of the relaxed attempt.
\<close>

theorem generateTryOn_flash_no_fallback_counterexample:
  "genOutcome refusingEnv ''key''
     (generationRequest ''P'' ''image/png'' ''I'' ''image/png'' (primaryModel flashOptions)
        (strictPrompt Clothing) (primaryConfig flashOptions)) = Inl (Error ''strict refused'')
   \<and> genOutcome refusingEnv ''key''
     (generationRequest ''P'' ''image/png'' ''I'' ''image/png'' (primaryModel flashOptions)
        (relaxedPrompt Clothing ''stylish clothing item'') (primaryConfig flashOptions))
       = Inl (Error ''relaxed refused'')
   \<and> length (apiCalls (snd (generateTryOn ''P'' ''image/png'' ''I'' ''image/png'' Clothing
                              flashOptions refusingEnv []))) = 3
   \<and> fst (generateTryOn ''P'' ''image/png'' ''I'' ''image/png'' Clothing flashOptions refusingEnv [])
       = Inl (Error ''Generation failed: relaxed refused'')"
  by (simp add: genOutcome_def example_defs service_defs)

text \<open>
  C2 (amended): when generation with the primary model fails with both prompts, then in
  pro mode \<open>generateTryOn\<close> tries the fallback model, and if that fails too it throws an
  error whose message is \<open>Generation failed: \<close> followed by the message of that last
  error (\<open>Unknown error\<close> when it is not an \<open>Error\<close>); in flash mode it makes no further
  attempt and throws the same way with the error of the relaxed attempt.
\<close>

theorem generateTryOn_gives_up:
  fixes p pm i im type options env tr
  defines "d \<equiv> fst (getItemDescription i im options env [])"
  defines "a1 \<equiv> generationRequest p pm i im (primaryModel options) (strictPrompt type)
                   (primaryConfig options)"
  defines "a2 \<equiv> generationRequest p pm i im (primaryModel options) (relaxedPrompt type d)
                   (primaryConfig options)"
  defines "a3 \<equiv> generationRequest p pm i im fallbackModel (strictPrompt type) fallbackConfig"
  defines "run \<equiv> generateTryOn p pm i im type options env tr"
  assumes key: "getAiClient options env = Inr ai"
    and f1: "genOutcome env ai a1 = Inl e1"
    and f2: "genOutcome env ai a2 = Inl e2"
  shows "(modelMode options = Pro \<longrightarrow>
            apiCalls (snd run) = apiCalls tr @ [describeRequest i im, a1, a2, a3]
               @ (case genOutcome env ai a3 of Inr img \<Rightarrow> [validateRequest img] | Inl e3 \<Rightarrow> [])
            \<and> (\<forall>e3. genOutcome env ai a3 = Inl e3 \<longrightarrow>
                  fst run = Inl (Error (''Generation failed: ''
                    @ (case e3 of Error m \<Rightarrow> m | NonError v \<Rightarrow> ''Unknown error'')))))
         \<and> (modelMode options = Flash \<longrightarrow>
            apiCalls (snd run) = apiCalls tr @ [describeRequest i im, a1, a2]
            \<and> fst run = Inl (Error (''Generation failed: ''
                  @ (case e2 of Error m \<Rightarrow> m | NonError v \<Rightarrow> ''Unknown error''))))"
proof (intro conjI impI allI)
  assume flash: "modelMode options = Flash"
  have run: "runLadder (genOutcome env ai) (ladder p pm i im type options d) = ([a1, a2], Some e2, None)"
    using f1 f2 flash by (simp add: ladder_def a1_def a2_def)
  from generateTryOn_ladder [OF key run [unfolded d_def], of tr]
  show "apiCalls (snd run) = apiCalls tr @ [describeRequest i im, a1, a2]"
    and "fst run = Inl (Error (''Generation failed: ''
                  @ (case e2 of Error m \<Rightarrow> m | NonError v \<Rightarrow> ''Unknown error'')))"
    by (simp_all add: run_def errorMessage_def split: thrown.splits)
next
  assume pro: "modelMode options = Pro"
  show "apiCalls (snd run) = apiCalls tr @ [describeRequest i im, a1, a2, a3]
               @ (case genOutcome env ai a3 of Inr img \<Rightarrow> [validateRequest img] | Inl e3 \<Rightarrow> [])"
  proof (cases "genOutcome env ai a3")
    case (Inl e3)
    have run: "runLadder (genOutcome env ai) (ladder p pm i im type options d)
                 = ([a1, a2, a3], Some e3, None)"
      using f1 f2 pro Inl by (simp add: ladder_def a1_def a2_def a3_def)
    from generateTryOn_ladder(2) [OF key run [unfolded d_def], of tr] Inl
    show ?thesis by (simp add: run_def)
  next
    case (Inr img)
    have run: "runLadder (genOutcome env ai) (ladder p pm i im type options d)
                 = ([a1, a2, a3], Some e2, Some img)"
      using f1 f2 pro Inr by (simp add: ladder_def a1_def a2_def a3_def)
    from generateTryOn_ladder(2) [OF key run [unfolded d_def], of tr] Inr
    show ?thesis by (simp add: run_def)
  qed
next
  fix e3
  assume pro: "modelMode options = Pro" and f3: "genOutcome env ai a3 = Inl e3"
  have run: "runLadder (genOutcome env ai) (ladder p pm i im type options d)
               = ([a1, a2, a3], Some e3, None)"
    using f1 f2 pro f3 by (simp add: ladder_def a1_def a2_def a3_def)
  from generateTryOn_ladder(1) [OF key run [unfolded d_def], of tr]
  show "fst run = Inl (Error (''Generation failed: ''
                    @ (case e3 of Error m \<Rightarrow> m | NonError v \<Rightarrow> ''Unknown error'')))"
    by (simp add: run_def errorMessage_def split: thrown.splits)
qed

theorem generateTryOn_gives_up_witness:
  "apiCalls (snd (generateTryOn ''P'' ''image/png'' ''I'' ''image/png'' Clothing proOptions
                    refusingEnv []))
     = [describeRequest ''I'' ''image/png'',
        generationRequest ''P'' ''image/png'' ''I'' ''image/png'' ''gemini-3-pro-image-preview''
          StrictClothing \<lparr>aspectRatio = ''3:4'', imageSize = Some ''1K''\<rparr>,
        generationRequest ''P'' ''image/png'' ''I'' ''image/png'' ''gemini-3-pro-image-preview''
          (RelaxedClothing ''stylish clothing item'') \<lparr>aspectRatio = ''3:4'', imageSize = Some ''1K''\<rparr>,
        generationRequest ''P'' ''image/png'' ''I'' ''image/png'' ''gemini-2.5-flash-image''
          StrictClothing \<lparr>aspectRatio = ''3:4'', imageSize = None\<rparr>]
   \<and> fst (generateTryOn ''P'' ''image/png'' ''I'' ''image/png'' Clothing proOptions refusingEnv [])
     = Inl (Error ''Generation failed: strict refused'')
   \<and> fst (generateTryOn ''P'' ''image/png'' ''I'' ''image/png'' Clothing flashOptions refusingEnv [])
     = Inl (Error ''Generation failed: relaxed refused'')"
proof -
  have keyP: "getAiClient proOptions refusingEnv = Inr ''key''"
    and keyF: "getAiClient flashOptions refusingEnv = Inr ''key''"
    by (simp_all add: example_defs service_defs)
  have dP: "fst (getItemDescription ''I'' ''image/png'' proOptions refusingEnv [])
              = ''stylish clothing item''"
    and dF: "fst (getItemDescription ''I'' ''image/png'' flashOptions refusingEnv [])
              = ''stylish clothing item''"
    by (simp_all add: example_defs service_defs)
  have modeP: "modelMode proOptions = Pro" and modeF: "modelMode flashOptions = Flash"
    by (simp_all add: example_defs)
  have p1: "genOutcome refusingEnv ''key''
     (generationRequest ''P'' ''image/png'' ''I'' ''image/png'' (primaryModel proOptions)
        (strictPrompt Clothing) (primaryConfig proOptions)) = Inl (Error ''strict refused'')"
    and p2: "genOutcome refusingEnv ''key''
     (generationRequest ''P'' ''image/png'' ''I'' ''image/png'' (primaryModel proOptions)
        (relaxedPrompt Clothing (fst (getItemDescription ''I'' ''image/png'' proOptions refusingEnv [])))
        (primaryConfig proOptions)) = Inl (Error ''relaxed refused'')"
    and p3: "genOutcome refusingEnv ''key''
     (generationRequest ''P'' ''image/png'' ''I'' ''image/png'' fallbackModel
        (strictPrompt Clothing) fallbackConfig) = Inl (Error ''strict refused'')"
    and q1: "genOutcome refusingEnv ''key''
     (generationRequest ''P'' ''image/png'' ''I'' ''image/png'' (primaryModel flashOptions)
        (strictPrompt Clothing) (primaryConfig flashOptions)) = Inl (Error ''strict refused'')"
    and q2: "genOutcome refusingEnv ''key''
     (generationRequest ''P'' ''image/png'' ''I'' ''image/png'' (primaryModel flashOptions)
        (relaxedPrompt Clothing (fst (getItemDescription ''I'' ''image/png'' flashOptions refusingEnv [])))
        (primaryConfig flashOptions)) = Inl (Error ''relaxed refused'')"
    unfolding dP dF by (simp_all add: genOutcome_def example_defs service_defs)
  from generateTryOn_gives_up [OF keyP p1 p2, of "[]"] modeP p3
    generateTryOn_gives_up [OF keyF q1 q2, of "[]"] modeF
  show ?thesis
    unfolding dP dF
    by (simp add: primaryModel_def primaryConfig_def strictPrompt_def relaxedPrompt_def
        fallbackModel_def fallbackConfig_def example_defs)
qed

section \<open>The review does not reach the result (C3)\<close>

lemma attempt_eq2:
  "attempt w env ai req (v, tr) =
     (case genOutcome env ai req of
        Inr img \<Rightarrow>
          ((Some img, snd v),
           tr @ [ConsoleLog (''Attempting generation with model: '' @ model req), ApiCall ai req])
      | Inl err \<Rightarrow>
          ((fst v, Some err),
           tr @ [ConsoleLog (''Attempting generation with model: '' @ model req), ApiCall ai req,
                 ConsoleWarn w (Some err)]))"
  by (cases v) (auto simp: attempt_eq split: sum.splits)

lemma runLadder_cong: "(\<And>r. r \<in> set rs \<Longrightarrow> f r = g r) \<Longrightarrow> runLadder f rs = runLadder g rs"
  by (induction rs) (auto split: sum.splits)

lemma retryLoop_cong:
  assumes "\<And>m c. genOutcome env1 ai (generationRequest p pm i im m (strictPrompt type) c)
                       = genOutcome env2 ai (generationRequest p pm i im m (strictPrompt type) c)"
    and "\<And>m c. genOutcome env1 ai (generationRequest p pm i im m (relaxedPrompt type d) c)
                       = genOutcome env2 ai (generationRequest p pm i im m (relaxedPrompt type d) c)"
  shows "retryLoop p pm i im type options env1 ai d tr = retryLoop p pm i im type options env2 ai d tr"
proof -
  have att: "\<And>w m c. attempt w env1 ai (generationRequest p pm i im m (strictPrompt type) c)
                         = attempt w env2 ai (generationRequest p pm i im m (strictPrompt type) c)"
    "\<And>w m c. attempt w env1 ai (generationRequest p pm i im m (relaxedPrompt type d) c)
                         = attempt w env2 ai (generationRequest p pm i im m (relaxedPrompt type d) c)"
  proof -
    fix w m c
    show "attempt w env1 ai (generationRequest p pm i im m (strictPrompt type) c)
            = attempt w env2 ai (generationRequest p pm i im m (strictPrompt type) c)"
    proof (rule ext)
      fix x
      show "attempt w env1 ai (generationRequest p pm i im m (strictPrompt type) c) x
              = attempt w env2 ai (generationRequest p pm i im m (strictPrompt type) c) x"
        by (cases x) (simp add: attempt_eq2 assms(1))
    qed
    show "attempt w env1 ai (generationRequest p pm i im m (relaxedPrompt type d) c)
            = attempt w env2 ai (generationRequest p pm i im m (relaxedPrompt type d) c)"
    proof (rule ext)
      fix x
      show "attempt w env1 ai (generationRequest p pm i im m (relaxedPrompt type d) c) x
              = attempt w env2 ai (generationRequest p pm i im m (relaxedPrompt type d) c) x"
        by (cases x) (simp add: attempt_eq2 assms(2))
    qed
  qed
  show ?thesis
    by (simp add: retryLoop_def Let_def att cong: if_cong)
qed

lemma validatePrompt_in_validateRequest: "Text ValidatePrompt \<in> set (contents (validateRequest img))"
  by (simp add: validateRequest_def)

lemma validatePrompt_notin_describeRequest:
  "Text ValidatePrompt \<notin> set (contents (describeRequest i im))"
  by (simp add: describeRequest_def)

lemma validatePrompt_notin_generationRequest:
  "Text ValidatePrompt \<notin> set (contents (generationRequest p pm i im m (strictPrompt t) c))"
  "Text ValidatePrompt \<notin> set (contents (generationRequest p pm i im m (relaxedPrompt t d) c))"
  by (simp_all add: generationRequest_def strictPrompt_def relaxedPrompt_def)

lemma validateResult_nonwarn:
  "getAiClient options env = Inr ai \<Longrightarrow>
     filter (\<lambda>e. \<not> isWarn e) (snd (validateResult img options env tr))
       = filter (\<lambda>e. \<not> isWarn e) tr @ [ApiCall ai (validateRequest img)]"
  by (simp add: validateResult_def callModel_def split: sum.splits option.splits)

lemma validateResult_defaults_true:
  "(isl (getAiClient options env) \<longrightarrow> fst (validateResult img options env tr))
   \<and> (getAiClient options env = Inr ai \<and> isl (generateContent env ai (validateRequest img))
        \<longrightarrow> fst (validateResult img options env tr))
   \<and> (getAiClient options env = Inr ai \<and> generateContent env ai (validateRequest img) = Inr r
        \<and> respText r = None \<longrightarrow> fst (validateResult img options env tr))"
  by (auto simp: validateResult_def callModel_def split: sum.splits option.splits)

lemma generateTryOn_same_but_review:
  assumes keys: "processEnvApiKey env1 = processEnvApiKey env2"
    and agree: "\<forall>k req. Text ValidatePrompt \<notin> set (contents req)
                  \<longrightarrow> generateContent env1 k req = generateContent env2 k req"
  shows "fst (generateTryOn p pm i im type options env1 tr)
           = fst (generateTryOn p pm i im type options env2 tr)"
    and "filter (\<lambda>e. \<not> isWarn e) (snd (generateTryOn p pm i im type options env1 tr))
           = filter (\<lambda>e. \<not> isWarn e) (snd (generateTryOn p pm i im type options env2 tr))"
proof -
  have k: "getAiClient options env1 = getAiClient options env2"
    using keys by (simp add: getAiClient_def)
  have both: "fst (generateTryOn p pm i im type options env1 tr)
           = fst (generateTryOn p pm i im type options env2 tr)
      \<and> filter (\<lambda>e. \<not> isWarn e) (snd (generateTryOn p pm i im type options env1 tr))
           = filter (\<lambda>e. \<not> isWarn e) (snd (generateTryOn p pm i im type options env2 tr))"
  proof (cases "getAiClient options env2")
    case (Inl e)
    with k show ?thesis by (simp add: generateTryOn_no_key)
  next
    case (Inr ai)
    with k have k1: "getAiClient options env1 = Inr ai" by simp
    have gd: "\<And>t. getItemDescription i im options env1 t = getItemDescription i im options env2 t"
      using agree validatePrompt_notin_describeRequest [of i im]
      by (simp add: getItemDescription_def k Inr callModel_def)
    have go: "\<And>req. Text ValidatePrompt \<notin> set (contents req)
                \<Longrightarrow> genOutcome env1 ai req = genOutcome env2 ai req"
      using agree by (simp add: genOutcome_def)
    have rl: "\<And>d t. retryLoop p pm i im type options env1 ai d t
                     = retryLoop p pm i im type options env2 ai d t"
      by (rule retryLoop_cong) (simp_all add: go validatePrompt_notin_generationRequest)
    define T where "T = getItemDescription i im options env2
                          (statusUpdate options ''Analyzing item details...'' tr)"
    define R where "R = retryLoop p pm i im type options env2 ai (fst T)
                          (statusUpdate options ''Synthesizing try-on...''
                             (snd T @ [ConsoleLog (''Generated Item Description: '' @ fst T)]))"
    have u: "\<And>env. getAiClient options env = Inr ai
        \<Longrightarrow> getItemDescription i im options env
               (statusUpdate options ''Analyzing item details...'' tr) = T
        \<Longrightarrow> (\<And>d t. retryLoop p pm i im type options env ai d t
                     = retryLoop p pm i im type options env2 ai d t)
        \<Longrightarrow> generateTryOn p pm i im type options env tr =
         (case fst (fst R) of
            None \<Rightarrow>
              (Inl (Error (''Generation failed: '' @ errorMessage (snd (fst R)))), snd R)
          | Some img \<Rightarrow>
              if img = [] then
                (Inl (Error (''Generation failed: '' @ errorMessage (snd (fst R)))), snd R)
              else
                (Inr img,
                 if \<not> fst (validateResult img options env
                              (statusUpdate options ''Reviewing result quality...'' (snd R)))
                 then snd (validateResult img options env
                              (statusUpdate options ''Reviewing result quality...'' (snd R)))
                      @ [ConsoleWarn ''Internal review failed: Image might not show a person.'' None]
                 else snd (validateResult img options env
                              (statusUpdate options ''Reviewing result quality...'' (snd R)))))"
      unfolding R_def
      by (simp add: generateTryOn_def case_prod_unfold errorMessage_def split: option.splits)
    have u1: "generateTryOn p pm i im type options env1 tr = (case fst (fst R) of
            None \<Rightarrow>
              (Inl (Error (''Generation failed: '' @ errorMessage (snd (fst R)))), snd R)
          | Some img \<Rightarrow>
              if img = [] then
                (Inl (Error (''Generation failed: '' @ errorMessage (snd (fst R)))), snd R)
              else
                (Inr img,
                 if \<not> fst (validateResult img options env1
                              (statusUpdate options ''Reviewing result quality...'' (snd R)))
                 then snd (validateResult img options env1
                              (statusUpdate options ''Reviewing result quality...'' (snd R)))
                      @ [ConsoleWarn ''Internal review failed: Image might not show a person.'' None]
                 else snd (validateResult img options env1
                              (statusUpdate options ''Reviewing result quality...'' (snd R)))))"
      by (rule u [OF k1]) (simp_all add: gd T_def rl)
    have u2: "generateTryOn p pm i im type options env2 tr = (case fst (fst R) of
            None \<Rightarrow>
              (Inl (Error (''Generation failed: '' @ errorMessage (snd (fst R)))), snd R)
          | Some img \<Rightarrow>
              if img = [] then
                (Inl (Error (''Generation failed: '' @ errorMessage (snd (fst R)))), snd R)
              else
                (Inr img,
                 if \<not> fst (validateResult img options env2
                              (statusUpdate options ''Reviewing result quality...'' (snd R)))
                 then snd (validateResult img options env2
                              (statusUpdate options ''Reviewing result quality...'' (snd R)))
                      @ [ConsoleWarn ''Internal review failed: Image might not show a person.'' None]
                 else snd (validateResult img options env2
                              (statusUpdate options ''Reviewing result quality...'' (snd R)))))"
      by (rule u [OF Inr]) (simp_all add: T_def)
    show ?thesis
      unfolding u1 u2
      by (simp add: validateResult_nonwarn [OF k1] validateResult_nonwarn [OF Inr]
          split: option.splits)
  qed
  from both show "fst (generateTryOn p pm i im type options env1 tr)
           = fst (generateTryOn p pm i im type options env2 tr)" by simp
  from both show "filter (\<lambda>e. \<not> isWarn e) (snd (generateTryOn p pm i im type options env1 tr))
           = filter (\<lambda>e. \<not> isWarn e) (snd (generateTryOn p pm i im type options env2 tr))" by simp
qed

text \<open>
  C3: the verdict of the review never reaches the result. Two hosted models that answer
  alike every request that does not carry the validation prompt give the same result of
  \<open>generateTryOn\<close> (the same image, or the same error), and the same trace but for console
  warnings. \<open>validateResult\<close> itself yields true when no client can be made, when its
  request is rejected, and when the response has no text.
\<close>

theorem validation_never_influences_result:
  "(processEnvApiKey env1 = processEnvApiKey env2
      \<and> (\<forall>k req. Text ValidatePrompt \<notin> set (contents req)
             \<longrightarrow> generateContent env1 k req = generateContent env2 k req)
    \<longrightarrow> fst (generateTryOn p pm i im type options env1 tr)
          = fst (generateTryOn p pm i im type options env2 tr)
        \<and> filter (\<lambda>e. \<not> isWarn e) (snd (generateTryOn p pm i im type options env1 tr))
          = filter (\<lambda>e. \<not> isWarn e) (snd (generateTryOn p pm i im type options env2 tr)))
   \<and> (isl (getAiClient options env) \<longrightarrow> fst (validateResult img options env tr))
   \<and> (getAiClient options env = Inr ai \<and> isl (generateContent env ai (validateRequest img))
        \<longrightarrow> fst (validateResult img options env tr))
   \<and> (getAiClient options env = Inr ai \<and> generateContent env ai (validateRequest img) = Inr r
        \<and> respText r = None \<longrightarrow> fst (validateResult img options env tr))"
  using generateTryOn_same_but_review [of env1 env2 p pm i im type options tr]
    validateResult_defaults_true [of options env img tr ai r]
  by blast

theorem validation_never_influences_result_witness:
  "fst (generateTryOn ''P'' ''image/png'' ''I'' ''image/png'' Clothing flashOptions flashOnlyEnv [])
     = fst (generateTryOn ''P'' ''image/png'' ''I'' ''image/png'' Clothing flashOptions
              rejectingReviewEnv [])
   \<and> fst (generateTryOn ''P'' ''image/png'' ''I'' ''image/png'' Clothing flashOptions
            rejectingReviewEnv []) = Inr ''data:image/jpeg;base64,QUJD''
   \<and> \<not> fst (validateResult ''data:image/jpeg;base64,QUJD'' flashOptions rejectingReviewEnv [])
   \<and> fst (validateResult ''data:image/jpeg;base64,QUJD'' noKeyOptions flashOnlyEnv [])
   \<and> fst (validateResult ''data:image/jpeg;base64,QUJD'' flashOptions refusingEnv [])
   \<and> fst (validateResult ''data:image/jpeg;base64,QUJD'' flashOptions imageOnlyEnv [])"
proof -
  have keys: "processEnvApiKey flashOnlyEnv = processEnvApiKey rejectingReviewEnv"
    by (simp add: flashOnlyEnv_def rejectingReviewEnv_def)
  have agree: "\<forall>k req. Text ValidatePrompt \<notin> set (contents req)
      \<longrightarrow> generateContent flashOnlyEnv k req = generateContent rejectingReviewEnv k req"
    by (simp add: rejectingReviewEnv_def)
  have nokey: "isl (getAiClient noKeyOptions flashOnlyEnv)"
    by (simp add: example_defs service_defs)
  have key: "getAiClient flashOptions refusingEnv = Inr ''key''"
    "getAiClient flashOptions imageOnlyEnv = Inr ''key''"
    by (simp_all add: example_defs imageOnlyEnv_def service_defs)
  have rejected: "isl (generateContent refusingEnv ''key''
                         (validateRequest ''data:image/jpeg;base64,QUJD''))"
    by (simp add: example_defs service_defs)
  have notext: "generateContent imageOnlyEnv ''key''
                  (validateRequest ''data:image/jpeg;base64,QUJD'') = Inr imageResponse"
    "respText imageResponse = None"
    by (simp_all add: imageOnlyEnv_def imageResponse_def)
  have run: "fst (generateTryOn ''P'' ''image/png'' ''I'' ''image/png'' Clothing flashOptions
            rejectingReviewEnv []) = Inr ''data:image/jpeg;base64,QUJD''"
    by (simp add: rejectingReviewEnv_def example_defs service_defs trim_def isSpace_def inRange_def)
  have no: "\<not> fst (validateResult ''data:image/jpeg;base64,QUJD'' flashOptions rejectingReviewEnv [])"
    by (simp add: rejectingReviewEnv_def example_defs service_defs toUpperCase_def upperChar_def isLowerLetter_def
        trim_def isSpace_def inRange_def)
  from keys agree nokey key rejected notext run no
    validation_never_influences_result [where ?env1.0 = flashOnlyEnv
      and ?env2.0 = rejectingReviewEnv and p = "''P''" and pm = "''image/png''" and i = "''I''"
      and im = "''image/png''" and type = Clothing and options = flashOptions and tr = "[]"]
    validation_never_influences_result [where options = noKeyOptions and env = flashOnlyEnv
      and img = "''data:image/jpeg;base64,QUJD''" and tr = "[]"]
    validation_never_influences_result [where options = flashOptions and env = refusingEnv
      and img = "''data:image/jpeg;base64,QUJD''" and tr = "[]" and ai = "''key''"]
    validation_never_influences_result [where options = flashOptions and env = imageOnlyEnv
      and img = "''data:image/jpeg;base64,QUJD''" and tr = "[]" and ai = "''key''"
      and r = imageResponse]
  show ?thesis by blast
qed

section \<open>Nothing is carried from call to call (C6)\<close>





lemma refineImage_tr:
  "refineImage c ins options env tr =
     (fst (refineImage c ins options env []), tr @ snd (refineImage c ins options env []))"
  by (simp add: refineImage_def callModel_def statusUpdate_def Let_def split: sum.splits)


text \<open>
  The translation with the world threaded through agrees with the first one: started in
  a world where the module has been loaded, a function \<open>fW\<close> returns what \<open>f\<close> returns in
  the environment read off that world, and changes the world only by the events that \<open>f\<close>
  appends.
\<close>

lemma loaded_events [simp]: "moduleLoaded (w\<lparr>events := t\<rparr>) = moduleLoaded w"
  by (simp add: moduleLoaded_def)

lemma envOf_events [simp]: "envOf api (w\<lparr>events := t\<rparr>) = envOf api w"
  by (simp add: envOf_def)



lemma callModelW_eq:
  "callModelW api ai req w =
     (fst (callModel (envOf api w) ai req (events w)),
      w\<lparr>events := snd (callModel (envOf api w) ai req (events w))\<rparr>)"
  by (simp add: callModelW_def callModel_def emit_def envOf_def)









lemma responses_append: "responses api (a @ b) = responses api a @ responses api b"
  by (induction a rule: apiCalls.induct) simp_all






lemma analyzeItemImage_key:
  "getAiClient options env = Inr ai \<Longrightarrow>
     ApiCall k r \<in> set (snd (analyzeItemImage i im options env [])) \<Longrightarrow> k = ai"
  by (auto simp: analyzeItemImage_def callModel_def Let_def split: sum.splits if_splits)

lemma refineImage_key:
  "getAiClient options env = Inr ai \<Longrightarrow>
     ApiCall k r \<in> set (snd (refineImage c ins options env [])) \<Longrightarrow> k = ai"
  by (auto simp: refineImage_def callModel_def Let_def statusUpdate_def split: sum.splits if_splits)

















section \<open>No entry point sends a request twice\<close>

text \<open>
  The hosted model is a function of the key and the request. That loses nothing within a
  call: the requests of one call differ from each other.
\<close>

lemma ladder_distinct: "distinct (ladder p pm i im type options d)"
  by (simp add: ladder_def generationRequest_def strictPrompt_def relaxedPrompt_def
      primaryModel_def fallbackModel_def)

lemma ladder_config: "r \<in> set (ladder p pm i im type options d) \<Longrightarrow> config r \<noteq> None"
  by (auto simp: ladder_def generationRequest_def split: if_splits)

lemma generateTryOn_requests_distinct:
  "distinct (apiCalls (snd (generateTryOn p pm i im type options env [])))"
proof (cases "getAiClient options env")
  case (Inl e)
  then show ?thesis by (simp add: generateTryOn_no_key)
next
  case (Inr ai)
  obtain made lastError res where run: "runLadder (genOutcome env ai)
      (ladder p pm i im type options (fst (getItemDescription i im options env [])))
      = (made, lastError, res)"
    by (metis prod_cases3)
  from runLadder_prefix [OF run] obtain n where
    made: "made = take n (ladder p pm i im type options (fst (getItemDescription i im options env [])))"
    by blast
  have d: "distinct made"
    unfolding made using ladder_distinct by (rule distinct_take)
  have c: "\<And>r. r \<in> set made \<Longrightarrow> config r \<noteq> None"
    unfolding made by (auto dest!: in_set_takeD ladder_config)
  have n1: "describeRequest i im \<notin> set made"
    using c [of "describeRequest i im"] by (auto simp: describeRequest_def)
  have n2: "\<And>img. validateRequest img \<notin> set made"
  proof -
    fix img show "validateRequest img \<notin> set made"
      using c [of "validateRequest img"] by (auto simp: validateRequest_def)
  qed
  have n3: "\<And>img. describeRequest i im \<noteq> validateRequest img"
    by (simp add: validateRequest_def describeRequest_def)
  from generateTryOn_ladder(2) [OF Inr run, of "[]"] d n1 n2 n3
  show ?thesis by (cases res) auto
qed

lemma analyzeItemImage_requests_distinct:
  "distinct (apiCalls (snd (analyzeItemImage i im options env [])))"
  by (simp add: analyzeItemImage_def callModel_def analyzeRequest_def Let_def
      split: sum.splits)

lemma refineImage_requests_distinct:
  "distinct (apiCalls (snd (refineImage c ins options env [])))"
  by (simp add: refineImage_def callModel_def refineRequest_def statusUpdate_def primaryModel_def
      Let_def split: sum.splits)

section \<open>The retry of \<open>refineImage\<close> (C5)\<close>

lemma refineImage_primary_fails:
  fixes c ins options env tr
  defines "primary \<equiv> refineRequest (primaryModel options) c ins (primaryConfig options)"
  defines "fallback \<equiv> refineRequest ''gemini-2.5-flash-image'' c ins
                         \<lparr>aspectRatio = ''3:4'', imageSize = None\<rparr>"
  assumes key: "getAiClient options env = Inr ai"
    and fail: "genOutcome env ai primary = Inl e"
  shows "(modelMode options = Pro \<longrightarrow>
            fst (refineImage c ins options env tr) = genOutcome env ai fallback
            \<and> apiCalls (snd (refineImage c ins options env tr)) = apiCalls tr @ [primary, fallback])
         \<and> (modelMode options = Flash \<longrightarrow>
            fst (refineImage c ins options env tr) = Inl e
            \<and> apiCalls (snd (refineImage c ins options env tr)) = apiCalls tr @ [primary])"
proof -
  have p: "(case generateContent env ai primary of
              Inl e \<Rightarrow> Inl e
            | Inr response \<Rightarrow> extractImageFromResponse (Some response)) = Inl e"
    using fail by (simp add: genOutcome_def)
  show ?thesis
  proof (cases "modelMode options")
    case Flash
    with p show ?thesis
      by (simp add: refineImage_def key callModel_def primary_def [symmetric]
          apiCalls_append apiCalls_statusUpdate)
  next
    case Pro
    with p show ?thesis
      by (cases "generateContent env ai fallback")
        (simp_all add: refineImage_def key callModel_def primary_def [symmetric]
          fallback_def [symmetric] genOutcome_def apiCalls_append apiCalls_statusUpdate)
  qed
qed

text \<open>
  C5: when the primary call of \<open>refineImage\<close> fails (the request is rejected, or no image
  can be extracted from the response), then in pro mode exactly one more request is sent,
  to \<open>gemini-2.5-flash-image\<close>, and its outcome, image or error, is the outcome of the call;
  in flash mode no request follows and the error of the single call is thrown unchanged.
\<close>

theorem refineImage_retries_once:
  fixes c ins options env tr
  defines "primary \<equiv> refineRequest (primaryModel options) c ins (primaryConfig options)"
  defines "fallback \<equiv> refineRequest ''gemini-2.5-flash-image'' c ins
                         \<lparr>aspectRatio = ''3:4'', imageSize = None\<rparr>"
  assumes key: "getAiClient options env = Inr ai"
    and fail: "genOutcome env ai primary = Inl e"
  shows "(modelMode options = Pro \<longrightarrow>
            fst (refineImage c ins options env tr) = genOutcome env ai fallback
            \<and> apiCalls (snd (refineImage c ins options env tr)) = apiCalls tr @ [primary, fallback])
         \<and> (modelMode options = Flash \<longrightarrow>
            fst (refineImage c ins options env tr) = Inl e
            \<and> apiCalls (snd (refineImage c ins options env tr)) = apiCalls tr @ [primary])"
  unfolding primary_def fallback_def
  using key fail [unfolded primary_def] by (rule refineImage_primary_fails)

theorem refineImage_retries_once_witness:
  "fst (refineImage ''data:image/jpeg;base64,QUJD'' ''make it red'' proOptions flashOnlyEnv [])
     = Inr ''data:image/jpeg;base64,QUJD''
   \<and> fst (refineImage ''data:image/jpeg;base64,QUJD'' ''make it red'' proOptions refusingEnv [])
     = Inl (Error ''relaxed refused'')
   \<and> length (apiCalls (snd (refineImage ''data:image/jpeg;base64,QUJD'' ''make it red''
                               proOptions refusingEnv []))) = 2
   \<and> fst (refineImage ''data:image/jpeg;base64,QUJD'' ''make it red'' flashOptions refusingEnv [])
     = Inl (Error ''relaxed refused'')
   \<and> length (apiCalls (snd (refineImage ''data:image/jpeg;base64,QUJD'' ''make it red''
                               flashOptions refusingEnv []))) = 1"
proof -
  have keys: "getAiClient proOptions flashOnlyEnv = Inr ''key''"
    "getAiClient proOptions refusingEnv = Inr ''key''"
    "getAiClient flashOptions refusingEnv = Inr ''key''"
    by (simp_all add: example_defs service_defs)
  have modes: "modelMode proOptions = Pro" "modelMode flashOptions = Flash"
    by (simp_all add: example_defs)
  have f1: "genOutcome flashOnlyEnv ''key''
              (refineRequest (primaryModel proOptions) ''data:image/jpeg;base64,QUJD''
                 ''make it red'' (primaryConfig proOptions)) = Inl (Error ''503 overloaded'')"
    and f2: "genOutcome refusingEnv ''key''
              (refineRequest (primaryModel proOptions) ''data:image/jpeg;base64,QUJD''
                 ''make it red'' (primaryConfig proOptions)) = Inl (Error ''relaxed refused'')"
    and f3: "genOutcome refusingEnv ''key''
              (refineRequest (primaryModel flashOptions) ''data:image/jpeg;base64,QUJD''
                 ''make it red'' (primaryConfig flashOptions)) = Inl (Error ''relaxed refused'')"
    and g1: "genOutcome flashOnlyEnv ''key''
              (refineRequest ''gemini-2.5-flash-image'' ''data:image/jpeg;base64,QUJD''
                 ''make it red'' \<lparr>aspectRatio = ''3:4'', imageSize = None\<rparr>)
             = Inr ''data:image/jpeg;base64,QUJD''"
    and g2: "genOutcome refusingEnv ''key''
              (refineRequest ''gemini-2.5-flash-image'' ''data:image/jpeg;base64,QUJD''
                 ''make it red'' \<lparr>aspectRatio = ''3:4'', imageSize = None\<rparr>)
             = Inl (Error ''relaxed refused'')"
    by (simp_all add: genOutcome_def refineRequest_def example_defs service_defs)
  from refineImage_retries_once [OF keys(1) f1, of "[]"]
    refineImage_retries_once [OF keys(2) f2, of "[]"]
    refineImage_retries_once [OF keys(3) f3, of "[]"] modes g1 g2
  show ?thesis by simp
qed

section \<open>The classification of \<open>analyzeItemImage\<close> (C4)\<close>

lemma isPrefix_iff: "isPrefix p s \<longleftrightarrow> (\<exists>b. s = p @ b)"
  by (induction p s rule: isPrefix.induct) auto

lemma includesStr_iff: "includesStr s w \<longleftrightarrow> (\<exists>a b. s = a @ w @ b)"
proof (induction s)
  case Nil
  then show ?case by (simp add: isPrefix_iff)
next
  case (Cons x xs)
  show ?case
  proof
    assume "includesStr (x # xs) w"
    then consider "isPrefix w (x # xs)" | "includesStr xs w" by auto
    then show "\<exists>a b. x # xs = a @ w @ b"
    proof cases
      case 1
      then obtain b where "x # xs = w @ b" by (auto simp: isPrefix_iff)
      then have "x # xs = [] @ w @ b" by simp
      then show ?thesis by blast
    next
      case 2
      with Cons.IH obtain a b where "xs = a @ w @ b" by blast
      then have "x # xs = (x # a) @ w @ b" by simp
      then show ?thesis by blast
    qed
  next
    assume "\<exists>a b. x # xs = a @ w @ b"
    then obtain a b where ab: "x # xs = a @ w @ b" by blast
    show "includesStr (x # xs) w"
    proof (cases a)
      case Nil
      with ab have "isPrefix w (x # xs)" by (auto simp: isPrefix_iff)
      then show ?thesis by simp
    next
      case (Cons y ys)
      with ab have "xs = ys @ w @ b" by simp
      with Cons.IH have "includesStr xs w" by blast
      then show ?thesis by simp
    qed
  qed
qed

lemma includesStr_rev: "includesStr (rev s) (rev w) = includesStr s w"
proof -
  have "\<And>s w :: string. includesStr s w \<Longrightarrow> includesStr (rev s) (rev w)"
  proof -
    fix s w :: string
    assume "includesStr s w"
    then obtain a b where "s = a @ w @ b" by (auto simp: includesStr_iff)
    then have "rev s = rev b @ rev w @ rev a" by simp
    then show "includesStr (rev s) (rev w)" unfolding includesStr_iff by blast
  qed
  from this [of s w] this [of "rev s" "rev w"] show ?thesis by auto
qed

lemma includesStr_dropWhile:
  "w \<noteq> [] \<Longrightarrow> \<not> P (hd w) \<Longrightarrow> includesStr (dropWhile P s) w = includesStr s w"
proof (induction s)
  case Nil
  then show ?case by simp
next
  case (Cons x xs)
  show ?case
  proof (cases "P x")
    case True
    with Cons.prems have "\<not> isPrefix w (x # xs)" by (cases w) auto
    with True Cons show ?thesis by simp
  next
    case False
    then show ?thesis by simp
  qed
qed

lemma includesStr_trim:
  assumes "w \<noteq> []" and "\<not> isSpace (hd w)" and "\<not> isSpace (last w)"
  shows "includesStr (trim s) w = includesStr s w"
proof -
  have "includesStr (trim s) w
          = includesStr (dropWhile isSpace (rev (dropWhile isSpace s))) (rev w)"
    unfolding trim_def using includesStr_rev [of "dropWhile isSpace (rev (dropWhile isSpace s))" "rev w"]
    by simp
  also have "\<dots> = includesStr (rev (dropWhile isSpace s)) (rev w)"
    using assms by (intro includesStr_dropWhile) (simp_all add: hd_rev)
  also have "\<dots> = includesStr (dropWhile isSpace s) w" by (rule includesStr_rev)
  also have "\<dots> = includesStr s w"
    using assms by (intro includesStr_dropWhile)
  finally show ?thesis .
qed

lemma isSpace_lowerChar: "isSpace (lowerChar c) = isSpace c"
proof (cases "isUpperLetter c")
  case False
  then show ?thesis by (simp add: lowerChar_def)
next
  case True
  then have r: "65 \<le> (of_char c :: nat)" "(of_char c :: nat) \<le> 222"
    by (auto simp: isUpperLetter_def inRange_def)
  define d :: char where "d = char_of (of_char c + (32 :: nat))"
  have od: "(of_char d :: nat) = of_char c + 32"
    unfolding d_def using r by simp
  have "d \<noteq> CHR '' ''"
  proof
    assume "d = CHR '' ''"
    then have "(of_char d :: nat) = 32" by simp
    with od r show False by simp
  qed
  moreover have "d \<noteq> CHR 0xA0"
  proof
    assume "d = CHR 0xA0"
    then have "(of_char d :: nat) = 160" by simp
    with od have "(of_char c :: nat) = 128" by simp
    with True show False by (simp add: isUpperLetter_def inRange_def)
  qed
  moreover have "\<not> inRange (CHR 0x09) (CHR 0x0D) d"
    using od r by (simp add: inRange_def)
  ultimately have n: "\<not> isSpace (char_of (of_char c + (32 :: nat)))"
    unfolding isSpace_def d_def by simp
  have "c \<noteq> CHR '' ''" "c \<noteq> CHR 0xA0"
    using True by (auto simp: isUpperLetter_def inRange_def)
  moreover have "\<not> inRange (CHR 0x09) (CHR 0x0D) c"
    using r by (simp add: inRange_def)
  ultimately have "\<not> isSpace c"
    unfolding isSpace_def by simp
  with n True show ?thesis by (simp add: lowerChar_def)
qed

lemma toLowerCase_trim: "toLowerCase (trim s) = trim (toLowerCase s)"
proof -
  have c: "isSpace \<circ> lowerChar = isSpace"
    by (rule ext) (simp add: isSpace_lowerChar)
  show ?thesis
    by (simp add: toLowerCase_def trim_def dropWhile_map rev_map c)
qed

lemma includes_lower_trim:
  assumes "w \<noteq> []" and "\<not> isSpace (hd w)" and "\<not> isSpace (last w)"
  shows "includesStr (toLowerCase (trim s)) w = mentions s w"
  unfolding toLowerCase_trim mentions_def using assms by (rule includesStr_trim)

lemma parseAnalysisResponse_classify: "parseAnalysisResponse t = classify t"
proof (cases t)
  case None
  then show ?thesis by (simp add: parseAnalysisResponse_def classify_def)
next
  case (Some s)
  have c: "includesStr (toLowerCase (trim s)) ''clothing'' = mentions s ''clothing''"
    by (rule includes_lower_trim) (simp_all add: isSpace_def inRange_def)
  have a: "includesStr (toLowerCase (trim s)) ''accessory'' = mentions s ''accessory''"
    by (rule includes_lower_trim) (simp_all add: isSpace_def inRange_def)
  from Some show ?thesis
    by (simp add: parseAnalysisResponse_def classify_def c a)
qed

text \<open>
  C4: with an API key, \<open>analyzeItemImage\<close> never throws and returns \<open>clothing\<close> or
  \<open>accessory\<close>. The reply that counts is that of the first request that is answered:
  the request to the model of the mode, or, in pro mode when that one is rejected, the
  single retry with \<open>gemini-2.5-flash\<close>. The result is \<open>accessory\<close> only when that reply
  mentions \<open>accessory\<close> and not \<open>clothing\<close>; it is \<open>clothing\<close> for every other reply, for
  a response without text, and when no request is answered.
\<close>

theorem analyzeItemImage_classifies:
  fixes i im options env tr
  defines "first \<equiv> analyzeRequest
             (if modelMode options = Pro then ''gemini-3-pro-preview'' else ''gemini-2.5-flash'') i im"
  defines "second \<equiv> analyzeRequest ''gemini-2.5-flash'' i im"
  defines "run \<equiv> analyzeItemImage i im options env tr"
  assumes key: "getAiClient options env = Inr ai"
  shows "(fst run = Inr Clothing \<or> fst run = Inr Accessory)
     \<and> (\<forall>r. generateContent env ai first = Inr r \<longrightarrow>
           fst run = Inr (classify (respText r)) \<and> apiCalls (snd run) = apiCalls tr @ [first])
     \<and> (isl (generateContent env ai first) \<and> modelMode options = Flash \<longrightarrow>
           fst run = Inr Clothing \<and> apiCalls (snd run) = apiCalls tr @ [first])
     \<and> (isl (generateContent env ai first) \<and> modelMode options = Pro \<longrightarrow>
           apiCalls (snd run) = apiCalls tr @ [first, second]
           \<and> (\<forall>r. generateContent env ai second = Inr r \<longrightarrow> fst run = Inr (classify (respText r)))
           \<and> (isl (generateContent env ai second) \<longrightarrow> fst run = Inr Clothing))"
proof -
  have cl: "\<And>t. classify t = Clothing \<or> classify t = Accessory"
    by (simp add: classify_def split: option.splits)
  show ?thesis
  proof (cases "generateContent env ai first")
    case (Inr r)
    then have "run = (Inr (classify (respText r)), tr @ [ApiCall ai first])"
      unfolding run_def first_def
      by (simp add: analyzeItemImage_def key callModel_def parseAnalysisResponse_classify)
    with Inr cl [of "respText r"] show ?thesis by (auto simp: apiCalls_append)
  next
    case e1: (Inl e)
    show ?thesis
    proof (cases "modelMode options")
      case Flash
      with e1 have "run = (Inr Clothing, tr @ [ApiCall ai first])"
        unfolding run_def first_def
        by (simp add: analyzeItemImage_def key callModel_def)
      with e1 Flash show ?thesis by (auto simp: apiCalls_append)
    next
      case Pro
      show ?thesis
      proof (cases "generateContent env ai second")
        case (Inr r)
        with e1 Pro have "run = (Inr (classify (respText r)),
            tr @ [ApiCall ai first, ConsoleWarn ''Pro analysis failed, falling back to Flash'' None,
                  ApiCall ai second])"
          unfolding run_def first_def second_def
          by (simp add: analyzeItemImage_def key callModel_def parseAnalysisResponse_classify)
        with e1 Pro Inr cl [of "respText r"] show ?thesis by (auto simp: apiCalls_append)
      next
        case (Inl e2)
        with e1 Pro have "run = (Inr Clothing,
            tr @ [ApiCall ai first, ConsoleWarn ''Pro analysis failed, falling back to Flash'' None,
                  ApiCall ai second])"
          unfolding run_def first_def second_def
          by (simp add: analyzeItemImage_def key callModel_def)
        with e1 Pro Inl show ?thesis by (auto simp: apiCalls_append)
      qed
    qed
  qed
qed

theorem analyzeItemImage_classifies_witness:
  "fst (analyzeItemImage ''I'' ''image/png'' proOptions accessoryEnv []) = Inr Accessory
   \<and> length (apiCalls (snd (analyzeItemImage ''I'' ''image/png'' proOptions accessoryEnv []))) = 2
   \<and> fst (analyzeItemImage ''I'' ''image/png'' flashOptions accessoryEnv []) = Inr Accessory
   \<and> fst (analyzeItemImage ''I'' ''image/png'' flashOptions flashOnlyEnv []) = Inr Clothing
   \<and> fst (analyzeItemImage ''I'' ''image/png'' flashOptions refusingEnv []) = Inr Clothing
   \<and> fst (analyzeItemImage ''I'' ''image/png'' proOptions refusingEnv []) = Inr Clothing"
proof -
  have keys: "getAiClient proOptions accessoryEnv = Inr ''key''"
    "getAiClient flashOptions accessoryEnv = Inr ''key''"
    "getAiClient flashOptions flashOnlyEnv = Inr ''key''"
    "getAiClient flashOptions refusingEnv = Inr ''key''"
    "getAiClient proOptions refusingEnv = Inr ''key''"
    by (simp_all add: example_defs accessoryEnv_def service_defs)
  have modes: "modelMode proOptions = Pro" "modelMode flashOptions = Flash"
    by (simp_all add: example_defs)
  have c1: "classify (Some '' An Accessory. '') = Accessory"
    by code_simp
  have c2: "classify (Some ''YES'') = Clothing"
    by (simp add: classify_def mentions_def toLowerCase_def lowerChar_def isUpperLetter_def inRange_def)
  have replies:
    "generateContent accessoryEnv ''key'' (analyzeRequest ''gemini-3-pro-preview'' ''I'' ''image/png'')
       = Inl (Error ''503 overloaded'')"
    "generateContent accessoryEnv ''key'' (analyzeRequest ''gemini-2.5-flash'' ''I'' ''image/png'')
       = Inr (textResponse '' An Accessory. '')"
    "generateContent flashOnlyEnv ''key'' (analyzeRequest ''gemini-2.5-flash'' ''I'' ''image/png'')
       = Inr (textResponse ''YES'')"
    "generateContent refusingEnv ''key'' (analyzeRequest ''gemini-2.5-flash'' ''I'' ''image/png'')
       = Inl (NonError ''offline'')"
    "generateContent refusingEnv ''key'' (analyzeRequest ''gemini-3-pro-preview'' ''I'' ''image/png'')
       = Inl (Error ''relaxed refused'')"
    by (simp_all add: accessoryEnv_def example_defs analyzeRequest_def cleanBase64_def)
  have texts: "respText (textResponse '' An Accessory. '') = Some '' An Accessory. ''"
    "respText (textResponse ''YES'') = Some ''YES''"
    by (simp_all add: textResponse_def)
  from analyzeItemImage_classifies [OF keys(1), of "''I''" "''image/png''" "[]"]
    analyzeItemImage_classifies [OF keys(2), of "''I''" "''image/png''" "[]"]
    analyzeItemImage_classifies [OF keys(3), of "''I''" "''image/png''" "[]"]
    analyzeItemImage_classifies [OF keys(4), of "''I''" "''image/png''" "[]"]
    analyzeItemImage_classifies [OF keys(5), of "''I''" "''image/png''" "[]"]
    modes replies texts c1 c2
  show ?thesis by simp
qed

section \<open>The undo history (C9)\<close>

text \<open>
  With no click while the refinement is pending, \<open>handleRefine\<close> does what is expected of
  it: it pushes the image on display before the call, and then either shows the refined
  image, or sets the history back and throws again what \<open>refineImage\<close> threw.
\<close>

lemma handleRefine_alone:
  fixes instruction env app tr
  defines "options \<equiv> \<lparr>modelMode = appModelMode (state app), customApiKey = getActiveKey app,
                        onStatusUpdate = False\<rparr>"
  assumes shown: "generatedImage (state app) = Some current" and ne: "current \<noteq> []"
  shows "handleRefine instruction env [] (app, tr) =
           (case fst (refineImage current instruction options env []) of
              Inr refined \<Rightarrow>
                (Inr (),
                 app\<lparr>history := history app @ [current],
                     state := (state app)\<lparr>generatedImage := Some refined\<rparr>\<rparr>,
                 tr @ [SetHistory (history app @ [current])]
                    @ snd (refineImage current instruction options env [])
                    @ [SetGeneratedImage (Some refined)])
            | Inl e \<Rightarrow>
                (Inl e, app,
                 tr @ [SetHistory (history app @ [current])]
                    @ snd (refineImage current instruction options env [])
                    @ [SetHistory (history app)]))"
proof -
  obtain r E where r0: "refineImage current instruction options env [] = (r, E)"
    by (cases "refineImage current instruction options env []")
  have r: "\<And>t. refineImage current instruction options env t = (r, t @ E)"
    by (subst refineImage_tr) (simp add: r0)
  show ?thesis
    using shown ne
    by (cases r)
      (simp_all add: handleRefine_def setHistory_def setGeneratedImage_def
        options_def [symmetric] r r0)
qed

lemma handleUndo_empty: "history app = [] \<Longrightarrow> handleUndo (app, tr) = (app, tr)"
  by (simp add: handleUndo_def)

text \<open>
  C9 says that a refinement that throws leaves the history exactly as it was before the
  call. The code does not keep that when Undo is clicked while the refinement is pending:
  the click pops the entry that \<open>handleRefine\<close> pushed, and the \<open>catch\<close> block then pops the
  entry below it. Here the history holds one image before the call and none after it,
  though \<open>refineImage\<close> threw and the image on display is the same.
\<close>

theorem handleRefine_undo_while_pending:
  "history demoApp = [''data:image/png;base64,T0xE'']
   \<and> generatedImage (state demoApp) = Some ''data:image/jpeg;base64,QUJD''
   \<and> fst (handleRefine ''make it red'' refusingEnv [Undo] (demoApp, []))
       = Inl (Error ''relaxed refused'')
   \<and> history (fst (snd (handleRefine ''make it red'' refusingEnv [Undo] (demoApp, [])))) = []
   \<and> generatedImage (state (fst (snd (handleRefine ''make it red'' refusingEnv [Undo]
                                          (demoApp, [])))))
       = Some ''data:image/jpeg;base64,QUJD''"
  by (simp add: handleRefine_def clickOn_def handleUndo_def setHistory_def setGeneratedImage_def
      demoApp_def getActiveKey_def refineImage_def refineRequest_def example_defs
      getAiClient_def jsOr_def truthy_def statusUpdate_def callModel_def primaryModel_def
      primaryConfig_def)

section \<open>Returned images are data URLs (C10)\<close>

lemma generateTryOn_image:
  assumes "fst (generateTryOn p pm i im type options env tr) = Inr s"
  shows "\<exists>ai req r. generateContent env ai req = Inr r \<and> extractImageFromResponse (Some r) = Inr s"
proof (cases "getAiClient options env")
  case (Inl e)
  with assms show ?thesis by (simp add: generateTryOn_no_key)
next
  case (Inr ai)
  obtain made lastError res where run: "runLadder (genOutcome env ai)
      (ladder p pm i im type options (fst (getItemDescription i im options env [])))
      = (made, lastError, res)"
    by (metis prod_cases3)
  from generateTryOn_ladder(1) [OF Inr run, of tr] assms have "res = Some s"
    by (cases res) simp_all
  with run obtain req where "genOutcome env ai req = Inr s"
    by (auto dest: runLadder_image)
  then show ?thesis
    by (auto simp: genOutcome_def split: sum.splits)
qed

lemma refineImage_image:
  assumes "fst (refineImage c ins options env tr) = Inr s"
  shows "\<exists>ai req r. generateContent env ai req = Inr r \<and> extractImageFromResponse (Some r) = Inr s"
proof (cases "getAiClient options env")
  case (Inl e)
  with assms show ?thesis by (simp add: refineImage_def)
next
  case (Inr ai)
  define primary where "primary = refineRequest (primaryModel options) c ins (primaryConfig options)"
  define fallback where "fallback = refineRequest ''gemini-2.5-flash-image'' c ins
                         \<lparr>aspectRatio = ''3:4'', imageSize = None\<rparr>"
  show ?thesis
  proof (cases "genOutcome env ai primary")
    case img: (Inr img)
    then have "fst (refineImage c ins options env tr) = Inr img"
      by (simp add: refineImage_def Inr callModel_def genOutcome_def primary_def split: sum.splits)
    with assms img have "genOutcome env ai primary = Inr s" by simp
    then show ?thesis by (auto simp: genOutcome_def split: sum.splits)
  next
    case (Inl e)
    from refineImage_primary_fails [OF Inr Inl [unfolded primary_def], of tr] assms
    have "genOutcome env ai fallback = Inr s"
      by (cases "modelMode options") (simp_all add: fallback_def)
    then show ?thesis by (auto simp: genOutcome_def split: sum.splits)
  qed
qed

lemma extract_throws:
  "isl (extractImageFromResponse resp) \<longleftrightarrow>
     firstCandidate resp = None
     \<or> (\<exists>c. firstCandidate resp = Some c \<and> (stoppedEarly c \<or> firstImagePart c = None))"
proof -
  have "isl (extractImageFromResponse resp) \<longleftrightarrow> imageOf resp = None"
  proof (cases "imageOf resp")
    case None
    with extract_image [of resp] have "\<And>s. extractImageFromResponse resp \<noteq> Inr s" by simp
    with None show ?thesis by (cases "extractImageFromResponse resp") auto
  next
    case (Some d)
    with extract_image [of resp "dataUrl d"] show ?thesis by simp
  qed
  then show ?thesis
    by (auto simp: imageOf_def split: option.splits if_splits)
qed

text \<open>
  C10: a string returned by \<open>extractImageFromResponse\<close> is \<open>data:\<close>, the MIME type,
  \<open>;base64,\<close> and the data of the first part with inline data of the first candidate, the
  type being \<open>image/png\<close> when that part names none. The function throws exactly when
  there is no first candidate, or that candidate has a \<open>finishReason\<close> (a non-empty one)
  other than \<open>STOP\<close>, or none of its parts has inline data. Every image returned by
  \<open>generateTryOn\<close> and by \<open>refineImage\<close> is such a string, extracted from a response of
  the hosted model.
\<close>

theorem extractImageFromResponse_data_url:
  "(\<forall>s. extractImageFromResponse resp = Inr s \<longrightarrow>
      (\<exists>c d. firstCandidate resp = Some c \<and> \<not> stoppedEarly c \<and> firstImagePart c = Some d
         \<and> s = ''data:''
               @ (case mimeType d of None \<Rightarrow> ''image/png''
                  | Some m \<Rightarrow> if m = [] then ''image/png'' else m)
               @ '';base64,''
               @ (case imgData d of None \<Rightarrow> ''undefined'' | Some b \<Rightarrow> b)))
   \<and> (isl (extractImageFromResponse resp) \<longleftrightarrow>
        firstCandidate resp = None
        \<or> (\<exists>c. firstCandidate resp = Some c \<and> (stoppedEarly c \<or> firstImagePart c = None)))
   \<and> (\<forall>s. fst (generateTryOn p pm i im type options env tr) = Inr s \<longrightarrow>
        (\<exists>ai req r. generateContent env ai req = Inr r
           \<and> extractImageFromResponse (Some r) = Inr s))
   \<and> (\<forall>s. fst (refineImage cur ins options env tr) = Inr s \<longrightarrow>
        (\<exists>ai req r. generateContent env ai req = Inr r
           \<and> extractImageFromResponse (Some r) = Inr s))"
proof (intro conjI allI impI)
  fix s
  assume "extractImageFromResponse resp = Inr s"
  then obtain d where d: "imageOf resp = Some d" and s: "s = dataUrl d"
    by (auto simp: extract_image)
  from d obtain c where "firstCandidate resp = Some c" "\<not> stoppedEarly c" "firstImagePart c = Some d"
    by (auto simp: imageOf_def split: option.splits if_splits)
  with s show "\<exists>c d. firstCandidate resp = Some c \<and> \<not> stoppedEarly c \<and> firstImagePart c = Some d
         \<and> s = ''data:''
               @ (case mimeType d of None \<Rightarrow> ''image/png''
                  | Some m \<Rightarrow> if m = [] then ''image/png'' else m)
               @ '';base64,''
               @ (case imgData d of None \<Rightarrow> ''undefined'' | Some b \<Rightarrow> b)"
    unfolding dataUrl_shape by blast
next
  show "isl (extractImageFromResponse resp) \<longleftrightarrow>
        firstCandidate resp = None
        \<or> (\<exists>c. firstCandidate resp = Some c \<and> (stoppedEarly c \<or> firstImagePart c = None))"
    by (rule extract_throws)
next
  fix s
  assume "fst (generateTryOn p pm i im type options env tr) = Inr s"
  then show "\<exists>ai req r. generateContent env ai req = Inr r
           \<and> extractImageFromResponse (Some r) = Inr s"
    by (rule generateTryOn_image)
next
  fix s
  assume "fst (refineImage cur ins options env tr) = Inr s"
  then show "\<exists>ai req r. generateContent env ai req = Inr r
           \<and> extractImageFromResponse (Some r) = Inr s"
    by (rule refineImage_image)
qed

theorem extractImageFromResponse_data_url_witness:
  "extractImageFromResponse (Some imageResponse) = Inr ''data:image/jpeg;base64,QUJD''
   \<and> firstCandidate (Some imageResponse)
       = Some \<lparr>finishReason = Some ''STOP'',
               contentParts = Some [\<lparr>inlineData = Some \<lparr>mimeType = Some ''image/jpeg'',
                                                         imgData = Some ''QUJD''\<rparr>,
                                      partText = None\<rparr>]\<rparr>
   \<and> isl (extractImageFromResponse (Some (textResponse ''I cannot do that'')))
   \<and> fst (generateTryOn ''P'' ''image/png'' ''I'' ''image/png'' Clothing flashOptions flashOnlyEnv [])
       = Inr ''data:image/jpeg;base64,QUJD''
   \<and> fst (refineImage ''data:image/jpeg;base64,QUJD'' ''make it red'' flashOptions flashOnlyEnv [])
       = Inr ''data:image/jpeg;base64,QUJD''"
proof -
  have h1: "extractImageFromResponse (Some imageResponse) = Inr ''data:image/jpeg;base64,QUJD''"
    by (simp add: example_defs service_defs)
  have h2: "firstCandidate (Some (textResponse ''I cannot do that'')) = None"
    by (simp add: firstCandidate_def textResponse_def)
  have h3: "fst (generateTryOn ''P'' ''image/png'' ''I'' ''image/png'' Clothing flashOptions
                   flashOnlyEnv []) = Inr ''data:image/jpeg;base64,QUJD''"
    by (simp add: example_defs service_defs trim_def isSpace_def inRange_def
        toUpperCase_def upperChar_def isLowerLetter_def)
  have h4: "fst (refineImage ''data:image/jpeg;base64,QUJD'' ''make it red'' flashOptions
                   flashOnlyEnv []) = Inr ''data:image/jpeg;base64,QUJD''"
    by (simp add: refineImage_def refineRequest_def example_defs service_defs)
  have h5: "firstCandidate (Some imageResponse)
       = Some \<lparr>finishReason = Some ''STOP'',
               contentParts = Some [\<lparr>inlineData = Some \<lparr>mimeType = Some ''image/jpeg'',
                                                         imgData = Some ''QUJD''\<rparr>,
                                      partText = None\<rparr>]\<rparr>"
    by (simp add: firstCandidate_def imageResponse_def)
  from h1 h2 h3 h4 h5
    extractImageFromResponse_data_url [where resp = "Some imageResponse"
      and p = "''P''" and pm = "''image/png''" and i = "''I''" and im = "''image/png''"
      and type = Clothing and options = flashOptions and env = flashOnlyEnv and tr = "[]"
      and cur = "''data:image/jpeg;base64,QUJD''" and ins = "''make it red''"]
    extractImageFromResponse_data_url [where resp = "Some (textResponse ''I cannot do that'')"
      and p = "''P''" and pm = "''image/png''" and i = "''I''" and im = "''image/png''"
      and type = Clothing and options = flashOptions and env = flashOnlyEnv and tr = "[]"
      and cur = "''data:image/jpeg;base64,QUJD''" and ins = "''make it red''"]
  show ?thesis by simp
qed

end
